theory Spec2Isabelle
  imports Main
begin

section \<open>Registry: qremoteobjectregistry.cpp\<close>

subsection \<open>Data model\<close>

text \<open>
  \<open>QRemoteObjectSourceLocation\<close> is \<open>QPair<QString, QUrl>\<close> and
  \<open>QRemoteObjectSourceLocations\<close> is \<open>QHash<QString, QUrl>\<close> (see the documentation
  comments of the class). Names and urls are strings here.
\<close>

type_synonym QString = string
type_synonym QUrl = string
type_synonym QRemoteObjectSourceLocation = "QString \<times> QUrl"

text \<open>
  The state of a replica. The enum is declared in the replica's header, which is not part
  of the sources at hand; the registry only compares against \<open>Valid\<close>. The constructors
  are the states the specification names.
\<close>

datatype State = Uninitialized | Connecting | Valid | Suspect | SignatureMismatch

text \<open>
  What \<open>send(QMetaObject::InvokeMetaMethod, index, args)\<close> is called with: \<open>index\<close> is
  the method index of \<open>addSource\<close> or of \<open>removeSource\<close>, \<open>args\<close> holds the entry.
\<close>

datatype Packet =
    InvokeAddSource QRemoteObjectSourceLocation
  | InvokeRemoveSource QRemoteObjectSourceLocation

text \<open>The lines written to the logging category: two warnings and two debug lines.\<close>

datatype LogLine =
    WarnNodeHasSource QString
  | WarnOtherRegistered QString QUrl
  | DebugAdded QRemoteObjectSourceLocation
  | DebugRemoved QRemoteObjectSourceLocation

fun isWarning :: "LogLine \<Rightarrow> bool" where
  "isWarning (WarnNodeHasSource _) = True"
| "isWarning (WarnOtherRegistered _ _) = True"
| "isWarning (DebugAdded _) = False"
| "isWarning (DebugRemoved _) = False"

text \<open>
  The registry object: \<open>hostedSources\<close> is the private \<open>QHash\<close>, kept as an association
  list in the order the hash iterates (some order, which the theorems do not fix);
  \<open>state\<close> is what \<open>state()\<close> returns; \<open>sourceLocations\<close> is property 0 of the replica
  (the table of the remote registry); \<open>outbox\<close> collects the calls of \<open>send\<close> and
  \<open>logged\<close> the log lines, oldest first.
\<close>

record QRemoteObjectRegistry =
  hostedSources :: "(QString \<times> QUrl) list"
  state :: State
  sourceLocations :: "QString \<rightharpoonup> QUrl"
  outbox :: "Packet list"
  logged :: "LogLine list"

subsection \<open>The hash operations the registry uses\<close>

definition QHash_contains :: "('k \<times> 'v) list \<Rightarrow> 'k \<Rightarrow> bool" where
  "QHash_contains h k = (k \<in> set (map fst h))"

text \<open>\<open>insert\<close> replaces the value of a key that is present and adds the key otherwise.\<close>

definition QHash_insert :: "('k \<times> 'v) list \<Rightarrow> 'k \<Rightarrow> 'v \<Rightarrow> ('k \<times> 'v) list" where
  "QHash_insert h k v =
     (if QHash_contains h k then map (\<lambda>(k', v'). if k' = k then (k', v) else (k', v')) h
      else h @ [(k, v)])"

definition QHash_remove :: "('k \<times> 'v) list \<Rightarrow> 'k \<Rightarrow> ('k \<times> 'v) list" where
  "QHash_remove h k = filter (\<lambda>(k', v'). k' \<noteq> k) h"

subsection \<open>addSource, removeSource, pushToRegistryIfNeeded\<close>

definition addSource ::
  "QRemoteObjectSourceLocation \<Rightarrow> QRemoteObjectRegistry \<Rightarrow> QRemoteObjectRegistry" where
  "addSource entry r =
     (if QHash_contains (hostedSources r) (fst entry)
      then r\<lparr>logged := logged r @ [WarnNodeHasSource (fst entry)]\<rparr>
      else
        let r1 = r\<lparr>hostedSources := QHash_insert (hostedSources r) (fst entry) (snd entry)\<rparr>
        in if state r1 \<noteq> Valid then r1
           else (case sourceLocations r1 (fst entry) of
                   Some other \<Rightarrow> r1\<lparr>logged := logged r1 @ [WarnOtherRegistered (fst entry) other]\<rparr>
                 | None \<Rightarrow> r1\<lparr>logged := logged r1 @ [DebugAdded entry],
                              outbox := outbox r1 @ [InvokeAddSource entry]\<rparr>))"

definition removeSource ::
  "QRemoteObjectSourceLocation \<Rightarrow> QRemoteObjectRegistry \<Rightarrow> QRemoteObjectRegistry" where
  "removeSource entry r =
     (if \<not> QHash_contains (hostedSources r) (fst entry) then r
      else
        let r1 = r\<lparr>hostedSources := QHash_remove (hostedSources r) (fst entry)\<rparr>
        in if state r1 \<noteq> Valid then r1
           else r1\<lparr>logged := logged r1 @ [DebugRemoved entry],
                    outbox := outbox r1 @ [InvokeRemoveSource entry]\<rparr>)"

text \<open>
  The loop of \<open>pushToRegistryIfNeeded\<close>: the first argument is what the iterator has
  still to visit. An entry whose name the remote table holds is erased from the hash
  (\<open>it = erase(it)\<close>) with a warning; any other entry is sent and kept (\<open>++it\<close>).
  \<open>sourceLocs\<close> is read once, before the loop.
\<close>

fun pushLoop ::
  "(QString \<rightharpoonup> QUrl) \<Rightarrow> (QString \<times> QUrl) list \<Rightarrow> QRemoteObjectRegistry \<Rightarrow> QRemoteObjectRegistry" where
  "pushLoop sourceLocs [] r = r"
| "pushLoop sourceLocs ((loc, url) # it) r =
     (case sourceLocs loc of
        Some other \<Rightarrow>
          pushLoop sourceLocs it
            (r\<lparr>logged := logged r @ [WarnOtherRegistered loc other],
               hostedSources := QHash_remove (hostedSources r) loc\<rparr>)
      | None \<Rightarrow>
          pushLoop sourceLocs it (r\<lparr>outbox := outbox r @ [InvokeAddSource (loc, url)]\<rparr>))"

definition pushToRegistryIfNeeded :: "QRemoteObjectRegistry \<Rightarrow> QRemoteObjectRegistry" where
  "pushToRegistryIfNeeded r =
     (if state r \<noteq> Valid then r
      else if hostedSources r = [] then r
      else pushLoop (sourceLocations r) (hostedSources r) r)"

subsection \<open>registerMetatypes\<close>

text \<open>
  The function keeps a function-local \<open>static bool initialized\<close>; the process state holds
  it together with the calls of \<open>qRegisterMetaType\<close> made so far. A process starts with
  \<open>initialized = False\<close>.
\<close>

datatype MetaTypeName = SourceLocationType | SourceLocationsType

record Process =
  initialized :: bool
  registrations :: "MetaTypeName list"

definition registerMetatypes :: "Process \<Rightarrow> Process" where
  "registerMetatypes p =
     (if initialized p then p
      else p\<lparr>initialized := True,
             registrations := registrations p @ [SourceLocationType, SourceLocationsType]\<rparr>)"

subsection \<open>Registry objects for the examples\<close>

text \<open>A registry in a given state, with nothing sent and nothing logged yet.\<close>

definition registryAt ::
  "State \<Rightarrow> (QString \<times> QUrl) list \<Rightarrow> (QString \<rightharpoonup> QUrl) \<Rightarrow> QRemoteObjectRegistry" where
  "registryAt s hosted remote =
     \<lparr>hostedSources = hosted, state = s, sourceLocations = remote, outbox = [], logged = []\<rparr>"

section \<open>Stored properties of gadgets: copyStoredProperties\<close>

subsection \<open>Data model\<close>

text \<open>
  A \<open>QVariant\<close> is invalid (what the default constructor gives) or holds a value.
\<close>

datatype 'a QVariant = Invalid | Variant 'a

text \<open>
  A \<open>QMetaProperty\<close> of a gadget of type \<open>'g\<close>: \<open>readOnGadget\<close> reads the property,
  \<open>writeOnGadget\<close> gives the gadget after the write (the C++ function returns whether it
  wrote, which \<open>copyStoredProperties\<close> does not look at; a write that fails leaves the
  gadget as it was), \<open>metaType\<close> is the property's type. A \<open>QMetaObject\<close> is the list of
  its properties: \<open>property(i)\<close> for \<open>i\<close> from \<open>0\<close> to \<open>propertyCount()\<close>.
\<close>

record ('g, 'a, 't) QMetaProperty =
  readOnGadget :: "'g \<Rightarrow> 'a QVariant"
  writeOnGadget :: "'g \<Rightarrow> 'a QVariant \<Rightarrow> 'g"
  metaType :: 't

text \<open>
  \<open>QRemoteObjectPackets::encodeVariant\<close> and \<open>decodeVariant\<close> belong to the packet code,
  which is not among the sources at hand: the functions below take the pair as an
  argument.
\<close>

record ('a, 't) WireCodec =
  encodeVariant :: "'a QVariant \<Rightarrow> 'a QVariant"
  decodeVariant :: "'a QVariant \<Rightarrow> 't \<Rightarrow> 'a QVariant"

text \<open>
  Modelled from the spec: the round trip of the Wire Codec (\<open>encodeVariant\<close> and
  \<open>decodeVariant\<close> of the packet code are missing). The specification's words are
  ``encoding then decoding any supported typed value through the Wire Codec yields an
  equal value''; \<open>roundTrips codec t v\<close> says that \<open>v\<close> is such a value at type \<open>t\<close>.
\<close>

definition roundTrips :: "('a, 't) WireCodec \<Rightarrow> 't \<Rightarrow> 'a QVariant \<Rightarrow> bool" where
  "roundTrips codec t v = (decodeVariant codec (encodeVariant codec v) t = v)"

text \<open>
  A \<open>QDataStream\<close> is the queue of the variants written and not yet read: \<open><<\<close> adds at
  the end, \<open>>>\<close> takes from the front, and reading from an exhausted stream leaves the
  default-constructed variant.
\<close>

type_synonym 'a QDataStream = "'a QVariant list"

definition stream_read :: "'a QDataStream \<Rightarrow> 'a QVariant \<times> 'a QDataStream" where
  "stream_read ds = (case ds of [] \<Rightarrow> (Invalid, []) | v # rest \<Rightarrow> (v, rest))"

text \<open>
  What a call does besides changing the destination: the warning it logs and the property
  reads and writes it performs, in order.
\<close>

datatype Effect = WarnNullSource | WarnNullDestination | PropertyRead | PropertyWrite

subsection \<open>The three overloads\<close>

text \<open>
  \<open>copyStoredProperties(mo, src, dst)\<close> from object to object. A pointer is an option,
  \<open>None\<close> the null pointer; source and destination are two objects.
\<close>

fun copyLoop ::
  "('g, 'a, 't) QMetaProperty list \<Rightarrow> 'g \<Rightarrow> 'g \<times> Effect list \<Rightarrow> 'g \<times> Effect list" where
  "copyLoop [] src (dst, effects) = (dst, effects)"
| "copyLoop (mp # rest) src (dst, effects) =
     copyLoop rest src
       (writeOnGadget mp dst (readOnGadget mp src), effects @ [PropertyRead, PropertyWrite])"

definition copyStoredProperties ::
  "('g, 'a, 't) QMetaProperty list \<Rightarrow> 'g option \<Rightarrow> 'g option \<Rightarrow> 'g option \<times> Effect list" where
  "copyStoredProperties mo src dst =
     (case src of
        None \<Rightarrow> (dst, [WarnNullSource])
      | Some s \<Rightarrow>
          (case dst of
             None \<Rightarrow> (dst, [WarnNullDestination])
           | Some d \<Rightarrow> (case copyLoop mo s (d, []) of (d', effects) \<Rightarrow> (Some d', effects))))"

text \<open>\<open>copyStoredProperties(mo, src, QDataStream &dst)\<close>.\<close>

fun toStreamLoop ::
  "('a, 't) WireCodec \<Rightarrow> ('g, 'a, 't) QMetaProperty list \<Rightarrow> 'g \<Rightarrow>
     'a QDataStream \<times> Effect list \<Rightarrow> 'a QDataStream \<times> Effect list" where
  "toStreamLoop codec [] src (dst, effects) = (dst, effects)"
| "toStreamLoop codec (mp # rest) src (dst, effects) =
     toStreamLoop codec rest src
       (dst @ [encodeVariant codec (readOnGadget mp src)], effects @ [PropertyRead])"

definition copyStoredProperties_toStream ::
  "('a, 't) WireCodec \<Rightarrow> ('g, 'a, 't) QMetaProperty list \<Rightarrow> 'g option \<Rightarrow> 'a QDataStream \<Rightarrow>
     'a QDataStream \<times> Effect list" where
  "copyStoredProperties_toStream codec mo src dst =
     (case src of
        None \<Rightarrow> (dst, [WarnNullSource])
      | Some s \<Rightarrow> toStreamLoop codec mo s (dst, []))"

text \<open>\<open>copyStoredProperties(mo, QDataStream &src, dst)\<close>.\<close>

fun fromStreamLoop ::
  "('a, 't) WireCodec \<Rightarrow> ('g, 'a, 't) QMetaProperty list \<Rightarrow>
     'a QDataStream \<times> 'g \<times> Effect list \<Rightarrow> 'a QDataStream \<times> 'g \<times> Effect list" where
  "fromStreamLoop codec [] (src, dst, effects) = (src, dst, effects)"
| "fromStreamLoop codec (mp # rest) (src, dst, effects) =
     (case stream_read src of
        (v, src') \<Rightarrow>
          fromStreamLoop codec rest
            (src', writeOnGadget mp dst (decodeVariant codec v (metaType mp)),
             effects @ [PropertyWrite]))"

definition copyStoredProperties_fromStream ::
  "('a, 't) WireCodec \<Rightarrow> ('g, 'a, 't) QMetaProperty list \<Rightarrow> 'a QDataStream \<Rightarrow> 'g option \<Rightarrow>
     'a QDataStream \<times> 'g option \<times> Effect list" where
  "copyStoredProperties_fromStream codec mo src dst =
     (case dst of
        None \<Rightarrow> (src, dst, [WarnNullDestination])
      | Some d \<Rightarrow>
          (case fromStreamLoop codec mo (src, d, []) of
             (src', d', effects) \<Rightarrow> (src', Some d', effects)))"

subsection \<open>A gadget for the examples\<close>

text \<open>
  A gadget with two integer members, a pair here, and its properties \<open>x\<close> and \<open>y\<close>
  (\<open>READ\<close> and \<open>WRITE\<close>, the form the generator gives the properties of a POD); a
  property \<open>READ\<close> only, whose write fails; and a codec that leaves integers as they are.
\<close>

definition xProperty :: "(int \<times> int, int, nat) QMetaProperty" where
  "xProperty =
     \<lparr>readOnGadget = (\<lambda>g. Variant (fst g)),
      writeOnGadget = (\<lambda>g v. case v of Variant n \<Rightarrow> (n, snd g) | Invalid \<Rightarrow> g),
      metaType = 2\<rparr>"

definition yProperty :: "(int \<times> int, int, nat) QMetaProperty" where
  "yProperty =
     \<lparr>readOnGadget = (\<lambda>g. Variant (snd g)),
      writeOnGadget = (\<lambda>g v. case v of Variant n \<Rightarrow> (fst g, n) | Invalid \<Rightarrow> g),
      metaType = 2\<rparr>"

definition constantProperty :: "(int \<times> int, int, nat) QMetaProperty" where
  "constantProperty =
     \<lparr>readOnGadget = (\<lambda>g. Variant (fst g)), writeOnGadget = (\<lambda>g v. g), metaType = 2\<rparr>"

definition plainCodec :: "(int, nat) WireCodec" where
  "plainCodec = \<lparr>encodeVariant = (\<lambda>v. v), decodeVariant = (\<lambda>v t. v)\<rparr>"

section \<open>The replica compiler: repcodegenerator.cpp\<close>

subsection \<open>Strings and byte arrays\<close>

text \<open>
  A \<open>QByteArray\<close> is a list of bytes, and so is a string of Isabelle. A \<open>QString\<close> is
  taken to hold Latin-1 text, which \<open>toLatin1\<close> gives back byte for byte.
\<close>

type_synonym QByteArray = string

definition toLatin1 :: "QString \<Rightarrow> QByteArray" where
  "toLatin1 s = s"

text \<open>\<open>QByteArray::number(int)\<close>: the decimal digits, after a minus sign below zero.\<close>

fun digits :: "nat \<Rightarrow> string" where
  "digits n =
     (if n < 10 then [char_of (48 + n)]
      else digits (n div 10) @ [char_of (48 + n mod 10)])"

declare digits.simps [simp del]

definition QByteArray_number :: "int \<Rightarrow> QByteArray" where
  "QByteArray_number n = (if n < 0 then CHR ''-'' # digits (nat (- n)) else digits (nat n))"

text \<open>\<open>QByteArray::toHex\<close>: two lower-case hexadecimal digits for each byte.\<close>

definition hexDigit :: "nat \<Rightarrow> char" where
  "hexDigit d = (if d < 10 then char_of (48 + d) else char_of (87 + d))"

definition toHex :: "QByteArray \<Rightarrow> QByteArray" where
  "toHex bs = concat (map (\<lambda>c. [hexDigit (of_char c div 16), hexDigit (of_char c mod 16)]) bs)"

text \<open>
  \<open>QString::lastIndexOf(needle)\<close>: the greatest position at which \<open>needle\<close> starts, or
  \<open>-1\<close>. The generator calls it with the needle \<open>::\<close> only. \<open>QString::mid(pos)\<close> is the
  rest of the string from \<open>pos\<close> on.
\<close>

definition lastIndexOf :: "QString \<Rightarrow> QString \<Rightarrow> int" where
  "lastIndexOf s needle =
     (case filter (\<lambda>i. take (length needle) (drop i s) = needle)
             (rev [0 ..< Suc (length s) - length needle]) of
        [] \<Rightarrow> - 1
      | i # _ \<Rightarrow> int i)"

definition mid :: "QString \<Rightarrow> int \<Rightarrow> QString" where
  "mid s pos = (if pos > int (length s) then [] else drop (nat pos) s)"

subsection \<open>The syntax tree of a rep file\<close>

text \<open>
  The structures of the parser, with the fields the generator reads. The parser's header
  is not among the sources at hand, so each field carries the name of its structure where
  two structures have a field of the same name (\<open>name\<close>, \<open>type\<close>, \<open>params\<close>).
\<close>

record ASTEnumParam =
  enumParamName :: QString
  enumParamValue :: int

record ASTEnum =
  enumName :: QString
  enumParams :: "ASTEnumParam list"
  isSigned :: bool
  enumMax :: int

datatype Modifier = Constant | ReadOnly | ReadPush | ReadWrite | SourceOnlySetter

record ASTProperty =
  propType :: QString
  propName :: QString
  modifier :: Modifier
  isPointer :: bool

record ASTDeclaration =
  declType :: QString
  declName :: QString
  variableType :: nat

record ASTFunction =
  returnType :: QString
  funName :: QString
  params :: "ASTDeclaration list"

record ASTModel =
  propertyIndex :: nat
  roles :: "QString list"

record ASTClass =
  className :: QString
  properties :: "ASTProperty list"
  signalsList :: "ASTFunction list"
  slotsList :: "ASTFunction list"
  enums :: "ASTEnum list"
  modelMetadata :: "ASTModel list"
  subClassPropertyIndices :: "nat list"

text \<open>
  What the signature takes from outside the generator: the SHA-1 of
  \<open>QCryptographicHash\<close>, a function from the bytes added to the digest, and the bytes that
  \<open>reinterpret_cast<const char *>(&x), sizeof(x)\<close> reads from an enum value in memory,
  for a property's modifier and for a parameter's variable type.
\<close>

record Platform =
  Sha1 :: "QByteArray \<Rightarrow> QByteArray"
  modifierBytes :: "Modifier \<Rightarrow> QByteArray"
  variableTypeBytes :: "nat \<Rightarrow> QByteArray"

subsection \<open>enumSignature, typeData, functionsData, classSignature\<close>

definition enumSignature :: "ASTEnum \<Rightarrow> QByteArray" where
  "enumSignature e =
     foldl (\<lambda>ret param. ret @ (toLatin1 (enumParamName param) @ QByteArray_number (enumParamValue param)))
       (toLatin1 (enumName e)) (enumParams e)"

text \<open>
  \<open>typeData\<close> calls itself on what follows the last \<open>::\<close>, a shorter string. The
  table \<open>specialTypes\<close> is a \<open>QHash\<close>, an association list as in the registry, and is
  only looked up.
\<close>

lemma lastIndexOf_le: "lastIndexOf s needle \<le> int (length s)"
proof (cases "filter (\<lambda>i. take (length needle) (drop i s) = needle)
                (rev [0 ..< Suc (length s) - length needle])")
  case Nil
  then show ?thesis by (simp add: lastIndexOf_def)
next
  case (Cons i rest)
  then have "i \<in> set (filter (\<lambda>i. take (length needle) (drop i s) = needle)
                (rev [0 ..< Suc (length s) - length needle]))"
    by simp
  then have "i \<le> length s" by auto
  then show ?thesis using Cons by (simp add: lastIndexOf_def)
qed

lemma lastIndexOf_bound: "lastIndexOf s needle > 0 \<Longrightarrow> s \<noteq> []"
  using lastIndexOf_le [of s needle] by auto

function typeData :: "QString \<Rightarrow> (QString \<times> QByteArray) list \<Rightarrow> QByteArray" where
  "typeData type specialTypes =
     (case map_of specialTypes type of
        Some v \<Rightarrow> v
      | None \<Rightarrow>
          (let pos = lastIndexOf type ''::''
           in if pos > 0 then typeData (mid type (pos + 2)) specialTypes
              else toLatin1 type))"
  by pat_completeness auto
termination
proof (relation "measure (\<lambda>(type, specialTypes). length type)")
  show "wf (measure (\<lambda>(type, specialTypes). length type))" by simp
next
  fix type :: QString and specialTypes :: "(QString \<times> QByteArray) list" and x
  assume "map_of specialTypes type = None" "x = lastIndexOf type ''::''" "0 < x"
  then have "type \<noteq> []" by (auto dest: lastIndexOf_bound)
  then show "((mid type (x + 2), specialTypes), (type, specialTypes))
      \<in> measure (\<lambda>(type, specialTypes). length type)"
    using \<open>0 < x\<close> by (auto simp: mid_def)
qed

declare typeData.simps [simp del]

definition functionsData :: "Platform \<Rightarrow> ASTFunction list \<Rightarrow> (QString \<times> QByteArray) list \<Rightarrow> QByteArray" where
  "functionsData P functions specialTypes =
     foldl (\<lambda>ret func.
         (foldl (\<lambda>ret param.
              ret @ toLatin1 (declName param) @ typeData (declType param) specialTypes
                  @ variableTypeBytes P (variableType param))
            (ret @ toLatin1 (funName func)) (params func))
         @ typeData (returnType func) specialTypes)
       [] functions"

text \<open>
  \<open>classSignature\<close>: \<open>localTypes\<close> is the table \<open>m_globalEnumsPODs\<close> with the class's own
  enums entered; \<open>classSignatureData\<close> is all that \<open>addData\<close> feeds the checksum, in
  order; the signature is the digest in hexadecimal.
\<close>

definition localTypes :: "(QString \<times> QByteArray) list \<Rightarrow> ASTClass \<Rightarrow> (QString \<times> QByteArray) list" where
  "localTypes globalEnumsPODs ac =
     foldl (\<lambda>types e. QHash_insert types (enumName e) (enumSignature e)) globalEnumsPODs (enums ac)"

definition classSignatureData :: "Platform \<Rightarrow> (QString \<times> QByteArray) list \<Rightarrow> ASTClass \<Rightarrow> QByteArray" where
  "classSignatureData P globalEnumsPODs ac =
     (let types = localTypes globalEnumsPODs ac;
          checksum = toLatin1 (className ac);
          checksum = foldl (\<lambda>checksum p.
                        checksum @ toLatin1 (propName p) @ typeData (propType p) types
                                 @ modifierBytes P (modifier p))
                      checksum (properties ac);
          checksum = checksum @ functionsData P (signalsList ac) types;
          checksum = checksum @ functionsData P (slotsList ac) types
      in checksum)"

definition classSignature :: "Platform \<Rightarrow> (QString \<times> QByteArray) list \<Rightarrow> ASTClass \<Rightarrow> QByteArray" where
  "classSignature P globalEnumsPODs ac = toHex (Sha1 P (classSignatureData P globalEnumsPODs ac))"

subsection \<open>Plain types\<close>

text \<open>
  The words of the statement about the type of a property; none of the three is a function
  of the generator. The base of a type is what follows its last colon. A plain type is a
  name without a colon, or a base after a qualifier and \<open>::\<close>, the qualifier not empty
  and without \<open><\<close> (so that the last \<open>::\<close> does not stand inside a template argument
  list). \<open>plainTypeData\<close> is what the statement says is hashed for a plain type: the
  table's entry for the type as written, else the table's entry for its base, else its
  base.
\<close>

definition baseName :: "QString \<Rightarrow> QString" where
  "baseName t = rev (takeWhile (\<lambda>c. c \<noteq> CHR '':'') (rev t))"

definition plainType :: "QString \<Rightarrow> bool" where
  "plainType t =
     (let front = take (length t - length (baseName t)) t;
          qualifier = take (length front - 2) front
      in front = []
         \<or> (front = qualifier @ ''::'' \<and> qualifier \<noteq> [] \<and> CHR ''<'' \<notin> set qualifier))"

definition plainTypeData :: "(QString \<times> QByteArray) list \<Rightarrow> QString \<Rightarrow> QByteArray" where
  "plainTypeData specialTypes t =
     (case map_of specialTypes t of
        Some entry \<Rightarrow> entry
      | None \<Rightarrow>
          (case map_of specialTypes (baseName t) of
             Some entry \<Rightarrow> entry
           | None \<Rightarrow> toLatin1 (baseName t)))"

subsection \<open>Helpers of generateSourceAPI\<close>

text \<open>
  \<open>cap\<close> turns the first character into upper case; \<open>toUpper\<close> is that of the letters
  \<open>a\<close> to \<open>z\<close>, the names of a rep file being identifiers. \<open>QString::remove\<close> takes
  every occurrence of a substring out, from left to right.
\<close>

datatype Mode = REPLICA | SOURCE | SIMPLE_SOURCE | MERGED

definition startsWith :: "QString \<Rightarrow> QString \<Rightarrow> bool" where
  "startsWith s prefix = (take (length prefix) s = prefix)"

definition toUpper :: "char \<Rightarrow> char" where
  "toUpper c =
     (if (97 :: nat) \<le> of_char c \<and> of_char c \<le> (122 :: nat)
      then char_of (of_char c - (32 :: nat)) else c)"

definition cap :: "QString \<Rightarrow> QString" where
  "cap name = (case name of [] \<Rightarrow> [] | c # rest \<Rightarrow> toUpper c # rest)"

definition isClassEnum :: "ASTClass \<Rightarrow> QString \<Rightarrow> bool" where
  "isClassEnum classContext typeName = (\<exists>astEnum \<in> set (enums classContext). enumName astEnum = typeName)"

definition fullyQualifiedTypeName :: "ASTClass \<Rightarrow> QString \<Rightarrow> QString \<Rightarrow> QString" where
  "fullyQualifiedTypeName classContext scopeName typeName =
     (if isClassEnum classContext typeName then scopeName @ ''::'' @ typeName else typeName)"

definition transformEnumParams :: "ASTClass \<Rightarrow> ASTFunction list \<Rightarrow> QString \<Rightarrow> ASTFunction list" where
  "transformEnumParams classContext methodList typeName =
     map (\<lambda>astFunction.
            astFunction\<lparr>params :=
              map (\<lambda>astParam.
                     foldl (\<lambda>astParam astEnum.
                              if enumName astEnum = declType astParam
                              then astParam\<lparr>declType := typeName @ ''::'' @ declType astParam\<rparr>
                              else astParam)
                       astParam (enums classContext))
                (params astFunction)\<rparr>)
       methodList"

definition typeForMode :: "ASTProperty \<Rightarrow> Mode \<Rightarrow> QString" where
  "typeForMode property mode =
     (if \<not> isPointer property then propType property
      else if startsWith (propType property) ''QAbstractItemModel''
      then (if mode = REPLICA then propType property @ ''Replica*'' else propType property @ ''*'')
      else (case mode of
              REPLICA \<Rightarrow> propType property @ ''Replica*''
            | SIMPLE_SOURCE \<Rightarrow> propType property @ ''Source*''
            | SOURCE \<Rightarrow> propType property @ ''Source*''
            | MERGED \<Rightarrow> ''InvalidPropertyName''))"

function QString_remove :: "QString \<Rightarrow> QString \<Rightarrow> QString" where
  "QString_remove s needle =
     (if needle = [] \<or> s = [] then s
      else if take (length needle) s = needle then QString_remove (drop (length needle) s) needle
      else hd s # QString_remove (tl s) needle)"
  by pat_completeness auto
termination
  by (relation "measure (\<lambda>(s, needle). length s)") auto

declare QString_remove.simps [simp del]

subsection \<open>The generated capability map\<close>

text \<open>
  \<open>generateSourceAPI\<close> writes the text of a class template over \<open>ObjectType\<close>, derived
  from \<open>SourceApiMap\<close>. The embedding is of the class that this text defines: its data
  members, as the generated constructor fills them, and its member functions.

  What the constructor takes from \<open>ObjectType\<close> and from the helper templates
  \<open>qtro_property_index\<close>, \<open>qtro_signal_index\<close> and \<open>qtro_method_index\<close>: the index of an
  enumerator and of a property by name, the method index of a signal by the name of the
  member, the index of a method by its signature, and the meta-type id of a type.
\<close>

record ObjectType =
  indexOfEnumerator :: "QString \<Rightarrow> int"
  indexOfProperty :: "QString \<Rightarrow> int"
  signalMethodIndex :: "QString \<Rightarrow> int"
  indexOfMethod :: "QString \<Rightarrow> int"
  metaTypeIdOf :: "QString \<Rightarrow> int"

text \<open>
  The data members. The arrays are lists of the declared size: \<open>int m_enums[enumCount + 1]\<close>
  and so on; \<open>m_signalArgCount\<close> and \<open>m_signalArgTypes\<close> are declared (and the guarded
  bodies of the two functions that read them are written) only when the class has a
  signal, which \<open>signalTables\<close> records, and likewise \<open>methodTables\<close>. The case labels of
  the \<open>switch\<close> in \<open>propertyIndexFromSignal\<close>, each with the index into
  \<open>m_properties\<close> that its \<open>return\<close> reads, are \<open>propertyIndexFromSignalCases\<close>.
\<close>

record SourceAPI =
  m_enums :: "int list"
  m_properties :: "int list"
  m_signals :: "int list"
  m_methods :: "int list"
  m_signalArgCount :: "int list"
  m_signalArgTypes :: "int list list"
  m_methodArgCount :: "int list"
  m_methodArgTypes :: "int list list"
  signalTables :: bool
  methodTables :: bool
  propertyIndexFromSignalCases :: "(int \<times> int) list"

text \<open>
  The constructor. The helper called for entry \<open>i\<close> of \<open>m_signals\<close> and of \<open>m_methods\<close>
  is given \<open>m_signalArgCount + i\<close> and \<open>&m_signalArgTypes[i]\<close>: it stores the number of
  arguments of the member function type written in the call, and the entry of the types
  table is the list of their meta-type ids. That type has one argument for a change
  signal and for a push method, and the parameters of the signal or slot otherwise.
  \<open>paramsAsString\<close>, of the parser, gives their types as text for the signature.
\<close>

definition generateSourceAPI ::
  "ObjectType \<Rightarrow> (ASTFunction \<Rightarrow> QString) \<Rightarrow> ASTClass \<Rightarrow> SourceAPI" where
  "generateSourceAPI objectType paramsAsString astClass =
     (let enumCount = length (enums astClass);
          propCount = length (properties astClass);
          (onChangeProperties, propertyChangeIndex) =
             foldl (\<lambda>(onChangeProperties, propertyChangeIndex) i.
                      let prop = properties astClass ! i
                      in if modifier prop \<noteq> Constant
                         then (onChangeProperties @ [prop], propertyChangeIndex @ [int i + 1])
                         else (onChangeProperties, propertyChangeIndex))
               ([], []) [0 ..< propCount];
          signalCount = length (signalsList astClass);
          changedCount = length onChangeProperties;
          signalsList' = transformEnumParams astClass (signalsList astClass) ''typename ObjectType'';
          slotCount = length (slotsList astClass);
          pushProps = filter (\<lambda>property. modifier property = ReadPush) (properties astClass);
          pushCount = length pushProps;
          methodCount = slotCount + pushCount;
          slotsList' = transformEnumParams astClass (slotsList astClass) ''typename ObjectType''
      in \<lparr>m_enums =
            int enumCount
              # map (\<lambda>i. indexOfEnumerator objectType (enumName (enums astClass ! i))) [0 ..< enumCount],
          m_properties =
            int propCount
              # map (\<lambda>i. indexOfProperty objectType (propName (properties astClass ! i))) [0 ..< propCount],
          m_signals =
            int (signalCount + changedCount)
              # map (\<lambda>i. signalMethodIndex objectType (propName (onChangeProperties ! i) @ ''Changed''))
                  [0 ..< changedCount]
              @ map (\<lambda>i. signalMethodIndex objectType (funName (signalsList' ! i))) [0 ..< signalCount],
          m_methods =
            int methodCount
              # map (\<lambda>i. indexOfMethod objectType
                         (''push'' @ cap (propName (pushProps ! i)) @ ''(''
                          @ QString_remove
                              (fullyQualifiedTypeName astClass ''typename ObjectType''
                                 (propType (pushProps ! i)))
                              ''typename ObjectType::''
                          @ '')''))
                  [0 ..< pushCount]
              @ map (\<lambda>i. indexOfMethod objectType
                         (funName (slotsList' ! i) @ ''(''
                          @ QString_remove (paramsAsString (slotsList' ! i)) ''typename ObjectType::''
                          @ '')''))
                  [0 ..< slotCount],
          m_signalArgCount =
            map (\<lambda>i. 1) [0 ..< changedCount]
              @ map (\<lambda>i. int (length (params (signalsList' ! i)))) [0 ..< signalCount],
          m_signalArgTypes =
            map (\<lambda>i. [metaTypeIdOf objectType
                          (fullyQualifiedTypeName astClass ''typename ObjectType''
                             (typeForMode (onChangeProperties ! i) SOURCE))])
                [0 ..< changedCount]
              @ map (\<lambda>i. map (\<lambda>param. metaTypeIdOf objectType (declType param))
                               (params (signalsList' ! i)))
                  [0 ..< signalCount],
          m_methodArgCount =
            map (\<lambda>i. 1) [0 ..< pushCount]
              @ map (\<lambda>i. int (length (params (slotsList' ! i)))) [0 ..< slotCount],
          m_methodArgTypes =
            map (\<lambda>i. [metaTypeIdOf objectType
                          (fullyQualifiedTypeName astClass ''typename ObjectType''
                             (propType (pushProps ! i)))])
                [0 ..< pushCount]
              @ map (\<lambda>i. map (\<lambda>param. metaTypeIdOf objectType (declType param))
                               (params (slotsList' ! i)))
                  [0 ..< slotCount],
          signalTables = (signalCount + changedCount > 0),
          methodTables = (methodCount > 0),
          propertyIndexFromSignalCases =
            map (\<lambda>i. (int i, propertyChangeIndex ! i)) [0 ..< length propertyChangeIndex]\<rparr>)"

text \<open>
  Reading an array: \<open>None\<close> is a read outside the array, which C++ leaves undefined.
\<close>

definition arrayRead :: "'a list \<Rightarrow> int \<Rightarrow> 'a option" where
  "arrayRead xs i = (if 0 \<le> i \<and> i < int (length xs) then Some (xs ! nat i) else None)"

text \<open>
  The member functions. The four index functions have the same body over their own
  table (\<open>countedRead\<close>), and so have the two parameter-count functions and the two
  parameter-type functions; \<open>||\<close> evaluates its right operand only when the left one is
  false.
\<close>

definition countedRead :: "int list \<Rightarrow> int \<Rightarrow> int option" where
  "countedRead table index =
     (case arrayRead table 0 of
        None \<Rightarrow> None
      | Some n \<Rightarrow> if index < 0 \<or> index \<ge> n then Some (- 1) else arrayRead table (index + 1))"

definition sourceEnumIndex :: "SourceAPI \<Rightarrow> int \<Rightarrow> int option" where
  "sourceEnumIndex api index = countedRead (m_enums api) index"

definition sourcePropertyIndex :: "SourceAPI \<Rightarrow> int \<Rightarrow> int option" where
  "sourcePropertyIndex api index = countedRead (m_properties api) index"

definition sourceSignalIndex :: "SourceAPI \<Rightarrow> int \<Rightarrow> int option" where
  "sourceSignalIndex api index = countedRead (m_signals api) index"

definition sourceMethodIndex :: "SourceAPI \<Rightarrow> int \<Rightarrow> int option" where
  "sourceMethodIndex api index = countedRead (m_methods api) index"

definition parameterCount :: "int list \<Rightarrow> int list \<Rightarrow> int \<Rightarrow> int option" where
  "parameterCount table argCount index =
     (case arrayRead table 0 of
        None \<Rightarrow> None
      | Some n \<Rightarrow> if index < 0 \<or> index \<ge> n then Some (- 1) else arrayRead argCount index)"

definition parameterType :: "int list \<Rightarrow> int list \<Rightarrow> int list list \<Rightarrow> int \<Rightarrow> int \<Rightarrow> int option" where
  "parameterType table argCount argTypes index paramIndex =
     (case arrayRead table 0 of
        None \<Rightarrow> None
      | Some n \<Rightarrow>
          if index < 0 \<or> index \<ge> n \<or> paramIndex < 0 then Some (- 1)
          else (case arrayRead argCount index of
                  None \<Rightarrow> None
                | Some c \<Rightarrow>
                    if paramIndex \<ge> c then Some (- 1)
                    else (case arrayRead argTypes index of
                            None \<Rightarrow> None
                          | Some types \<Rightarrow> arrayRead types paramIndex)))"

definition signalParameterCount :: "SourceAPI \<Rightarrow> int \<Rightarrow> int option" where
  "signalParameterCount api index =
     (if signalTables api then parameterCount (m_signals api) (m_signalArgCount api) index
      else Some (- 1))"

definition signalParameterType :: "SourceAPI \<Rightarrow> int \<Rightarrow> int \<Rightarrow> int option" where
  "signalParameterType api sigIndex paramIndex =
     (if signalTables api
      then parameterType (m_signals api) (m_signalArgCount api) (m_signalArgTypes api) sigIndex paramIndex
      else Some (- 1))"

definition methodParameterCount :: "SourceAPI \<Rightarrow> int \<Rightarrow> int option" where
  "methodParameterCount api index =
     (if methodTables api then parameterCount (m_methods api) (m_methodArgCount api) index
      else Some (- 1))"

definition methodParameterType :: "SourceAPI \<Rightarrow> int \<Rightarrow> int \<Rightarrow> int option" where
  "methodParameterType api methodIndex paramIndex =
     (if methodTables api
      then parameterType (m_methods api) (m_methodArgCount api) (m_methodArgTypes api) methodIndex paramIndex
      else Some (- 1))"

definition propertyIndexFromSignal :: "SourceAPI \<Rightarrow> int \<Rightarrow> int option" where
  "propertyIndexFromSignal api index =
     (case map_of (propertyIndexFromSignalCases api) index of
        Some k \<Rightarrow> arrayRead (m_properties api) k
      | None \<Rightarrow> Some (- 1))"

definition enumCount :: "SourceAPI \<Rightarrow> int option" where
  "enumCount api = arrayRead (m_enums api) 0"

definition propertyCount :: "SourceAPI \<Rightarrow> int option" where
  "propertyCount api = arrayRead (m_properties api) 0"

definition signalCount :: "SourceAPI \<Rightarrow> int option" where
  "signalCount api = arrayRead (m_signals api) 0"

definition methodCount :: "SourceAPI \<Rightarrow> int option" where
  "methodCount api = arrayRead (m_methods api) 0"

text \<open>The positions, in \<open>properties\<close>, of the properties that are not constant.\<close>

definition changeIndices :: "ASTClass \<Rightarrow> nat list" where
  "changeIndices ac =
     filter (\<lambda>i. modifier (properties ac ! i) \<noteq> Constant) [0 ..< length (properties ac)]"

subsection \<open>A class for the examples of the capability map\<close>

text \<open>
  A class with a constant property, a push property, a signal and a slot, and an object
  type that has them at some indices.
\<close>

fun commaSeparated :: "QString list \<Rightarrow> QString" where
  "commaSeparated [] = []"
| "commaSeparated [x] = x"
| "commaSeparated (x # y # rest) = x @ '','' @ commaSeparated (y # rest)"

definition meterClass :: ASTClass where
  "meterClass =
     \<lparr>className = ''Meter'',
      properties =
        [\<lparr>propType = ''QString'', propName = ''id'', modifier = Constant, isPointer = False\<rparr>,
         \<lparr>propType = ''int'', propName = ''level'', modifier = ReadPush, isPointer = False\<rparr>],
      signalsList =
        [\<lparr>returnType = ''void'', funName = ''overflow'',
          params = [\<lparr>declType = ''int'', declName = ''by'', variableType = 0\<rparr>]\<rparr>],
      slotsList = [\<lparr>returnType = ''void'', funName = ''reset'', params = []\<rparr>],
      enums = [], modelMetadata = [], subClassPropertyIndices = []\<rparr>"

definition meterObject :: ObjectType where
  "meterObject =
     \<lparr>indexOfEnumerator = (\<lambda>name. - 1),
      indexOfProperty = (\<lambda>name. if name = ''id'' then 1 else if name = ''level'' then 2 else - 1),
      signalMethodIndex =
        (\<lambda>name. if name = ''levelChanged'' then 5 else if name = ''overflow'' then 6 else - 1),
      indexOfMethod =
        (\<lambda>signature. if signature = ''pushLevel(int)'' then 7
                     else if signature = ''reset()'' then 8 else - 1),
      metaTypeIdOf = (\<lambda>type. if type = ''int'' then 2 else 0)\<rparr>"

definition meterApi :: SourceAPI where
  "meterApi = generateSourceAPI meterObject (\<lambda>f. commaSeparated (map declType (params f))) meterClass"

subsection \<open>A class for the examples of the signature\<close>

text \<open>A class with one read-write property \<open>count\<close> of the given type.\<close>

definition counterClass :: "QString \<Rightarrow> ASTClass" where
  "counterClass t =
     \<lparr>className = ''Counter'',
      properties = [\<lparr>propType = t, propName = ''count'', modifier = ReadWrite, isPointer = False\<rparr>],
      signalsList = [], slotsList = [], enums = [], modelMetadata = [],
      subClassPropertyIndices = []\<rparr>"

section \<open>Properties of the registry\<close>

subsection \<open>The hash operations\<close>

lemma QHash_remove_map_of:
  "map_of (QHash_remove h k) = (map_of h)(k := None)"
  by (induction h) (auto simp: QHash_remove_def)

lemma QHash_insert_fresh_map_of:
  "\<not> QHash_contains h k \<Longrightarrow> map_of (QHash_insert h k v) = (map_of h)(k \<mapsto> v)"
proof -
  assume a: "\<not> QHash_contains h k"
  then have n: "map_of h k = None"
    by (simp add: QHash_contains_def map_of_eq_None_iff)
  have "map_of (h @ [(k, v)]) = (map_of h)(k \<mapsto> v)"
  proof
    fix x show "map_of (h @ [(k, v)]) x = ((map_of h)(k \<mapsto> v)) x"
      using n by (cases "map_of h x") (auto simp: map_add_def)
  qed
  then show ?thesis using a by (simp add: QHash_insert_def)
qed

subsection \<open>addSource\<close>

text \<open>
  Claim C1, as amended. \<open>addSource\<close> returns nothing to its caller (the model returns
  the registry only). A name the hosted-sources table holds already makes the call a
  warning and nothing else: the table keeps the old endpoint and nothing is sent.
  Any other name is recorded with its endpoint. Then, in state \<open>Valid\<close>: when the
  remote table has no entry of that name, one add-notification is sent and no warning is
  logged; when the remote table has an entry of that name, under whichever endpoint,
  nothing is sent and one warning is logged. In any other state nothing is sent and
  nothing is logged.
\<close>

theorem addSource_amended:
  "(QHash_contains (hostedSources r) (fst entry) \<longrightarrow>
      addSource entry r = r\<lparr>logged := logged r @ [WarnNodeHasSource (fst entry)]\<rparr>)
   \<and> (\<not> QHash_contains (hostedSources r) (fst entry) \<longrightarrow>
        map_of (hostedSources (addSource entry r))
          = (map_of (hostedSources r))(fst entry \<mapsto> snd entry)
        \<and> (state r = Valid \<and> sourceLocations r (fst entry) = None \<longrightarrow>
              outbox (addSource entry r) = outbox r @ [InvokeAddSource entry]
              \<and> filter isWarning (logged (addSource entry r)) = filter isWarning (logged r))
        \<and> (state r = Valid \<longrightarrow> (\<forall>other. sourceLocations r (fst entry) = Some other \<longrightarrow>
              outbox (addSource entry r) = outbox r
              \<and> logged (addSource entry r)
                  = logged r @ [WarnOtherRegistered (fst entry) other]))
        \<and> (state r \<noteq> Valid \<longrightarrow>
              outbox (addSource entry r) = outbox r \<and> logged (addSource entry r) = logged r))"
  by (auto simp: addSource_def Let_def QHash_insert_fresh_map_of split: option.splits)

theorem addSource_amended_witness:
  "addSource (''alpha'', ''tcp://127.0.0.1:9002'')
       (registryAt Valid [(''alpha'', ''tcp://127.0.0.1:9001'')] Map.empty)
     = registryAt Valid [(''alpha'', ''tcp://127.0.0.1:9001'')] Map.empty
         \<lparr>logged := [WarnNodeHasSource ''alpha'']\<rparr>
   \<and> outbox (addSource (''alpha'', ''tcp://127.0.0.1:9001'') (registryAt Valid [] Map.empty))
       = [InvokeAddSource (''alpha'', ''tcp://127.0.0.1:9001'')]
   \<and> map_of (hostedSources
         (addSource (''alpha'', ''tcp://127.0.0.1:9001'') (registryAt Valid [] Map.empty))) ''alpha''
       = Some ''tcp://127.0.0.1:9001''
   \<and> logged (addSource (''alpha'', ''tcp://127.0.0.1:9001'')
         (registryAt Valid [] [''alpha'' \<mapsto> ''tcp://127.0.0.1:9005'']))
       = [WarnOtherRegistered ''alpha'' ''tcp://127.0.0.1:9005'']
   \<and> outbox (addSource (''alpha'', ''tcp://127.0.0.1:9001'')
         (registryAt Valid [] [''alpha'' \<mapsto> ''tcp://127.0.0.1:9005''])) = []
   \<and> outbox (addSource (''alpha'', ''tcp://127.0.0.1:9001'') (registryAt Suspect [] Map.empty)) = []"
  using addSource_amended [of "registryAt Valid [(''alpha'', ''tcp://127.0.0.1:9001'')] Map.empty"
          "(''alpha'', ''tcp://127.0.0.1:9002'')"]
        addSource_amended [of "registryAt Valid [] Map.empty" "(''alpha'', ''tcp://127.0.0.1:9001'')"]
        addSource_amended [of "registryAt Valid [] [''alpha'' \<mapsto> ''tcp://127.0.0.1:9005'']"
          "(''alpha'', ''tcp://127.0.0.1:9001'')"]
        addSource_amended [of "registryAt Suspect [] Map.empty" "(''alpha'', ''tcp://127.0.0.1:9001'')"]
  by (simp add: registryAt_def QHash_contains_def)

text \<open>
  Claim C1 as stated fails in two places. With the registry \<open>Valid\<close> and the remote
  table holding \<open>alpha\<close> under the very endpoint that is being added, no other endpoint
  claims the name, and still nothing is sent. And a call for a name that this node hosts
  already under another endpoint records nothing: the table keeps the old endpoint.
\<close>

theorem addSource_counterexample:
  "state (registryAt Valid [] [''alpha'' \<mapsto> ''tcp://127.0.0.1:9001'']) = Valid
   \<and> sourceLocations (registryAt Valid [] [''alpha'' \<mapsto> ''tcp://127.0.0.1:9001'']) ''alpha''
       = Some ''tcp://127.0.0.1:9001''
   \<and> outbox (addSource (''alpha'', ''tcp://127.0.0.1:9001'')
        (registryAt Valid [] [''alpha'' \<mapsto> ''tcp://127.0.0.1:9001''])) = []
   \<and> hostedSources (addSource (''alpha'', ''tcp://127.0.0.1:9002'')
        (registryAt Valid [(''alpha'', ''tcp://127.0.0.1:9001'')] Map.empty))
       = [(''alpha'', ''tcp://127.0.0.1:9001'')]
   \<and> outbox (addSource (''alpha'', ''tcp://127.0.0.1:9002'')
        (registryAt Valid [(''alpha'', ''tcp://127.0.0.1:9001'')] Map.empty)) = []"
  by (simp add: registryAt_def addSource_def QHash_contains_def QHash_insert_def)

subsection \<open>removeSource\<close>

text \<open>
  Claim C3. \<open>removeSource\<close> on a name that the hosted-sources table does not hold
  leaves the registry as it is (so nothing is sent). On a name the table holds, the name
  is deleted from the table, the other names keep their endpoints, and a
  remove-notification is sent exactly when the state is \<open>Valid\<close>.
\<close>

theorem removeSource_spec:
  "(\<not> QHash_contains (hostedSources r) (fst entry) \<longrightarrow> removeSource entry r = r)
   \<and> (QHash_contains (hostedSources r) (fst entry) \<longrightarrow>
        \<not> QHash_contains (hostedSources (removeSource entry r)) (fst entry)
        \<and> map_of (hostedSources (removeSource entry r))
            = (map_of (hostedSources r))(fst entry := None)
        \<and> outbox (removeSource entry r)
            = outbox r @ (if state r = Valid then [InvokeRemoveSource entry] else []))"
  by (auto simp: removeSource_def Let_def QHash_remove_map_of)
     (auto simp: QHash_contains_def QHash_remove_def)

theorem removeSource_spec_witness:
  "removeSource (''beta'', ''tcp://127.0.0.1:9002'')
      (registryAt Valid [(''alpha'', ''tcp://127.0.0.1:9001'')] Map.empty)
     = registryAt Valid [(''alpha'', ''tcp://127.0.0.1:9001'')] Map.empty
   \<and> outbox (removeSource (''alpha'', ''tcp://127.0.0.1:9001'')
        (registryAt Valid [(''alpha'', ''tcp://127.0.0.1:9001'')] Map.empty))
     = [InvokeRemoveSource (''alpha'', ''tcp://127.0.0.1:9001'')]
   \<and> outbox (removeSource (''alpha'', ''tcp://127.0.0.1:9001'')
        (registryAt Suspect [(''alpha'', ''tcp://127.0.0.1:9001'')] Map.empty))
     = []"
  using removeSource_spec [of "registryAt Valid [(''alpha'', ''tcp://127.0.0.1:9001'')] Map.empty"
          "(''beta'', ''tcp://127.0.0.1:9002'')"]
        removeSource_spec [of "registryAt Valid [(''alpha'', ''tcp://127.0.0.1:9001'')] Map.empty"
          "(''alpha'', ''tcp://127.0.0.1:9001'')"]
        removeSource_spec [of "registryAt Suspect [(''alpha'', ''tcp://127.0.0.1:9001'')] Map.empty"
          "(''alpha'', ''tcp://127.0.0.1:9001'')"]
  by (simp add: registryAt_def QHash_contains_def)

subsection \<open>pushToRegistryIfNeeded\<close>

lemma pushLoop_hosted:
  "hostedSources (pushLoop sl it r) =
     filter (\<lambda>(n, u). n \<notin> {k \<in> fst ` set it. sl k \<noteq> None}) (hostedSources r)"
proof (induction it arbitrary: r)
  case Nil
  then show ?case by simp
next
  case (Cons e it)
  obtain loc url where e: "e = (loc, url)" by (cases e)
  show ?case
  proof (cases "sl loc")
    case None
    have "{k \<in> fst ` set (e # it). sl k \<noteq> None} = {k \<in> fst ` set it. sl k \<noteq> None}"
      using None e by auto
    then show ?thesis using None e Cons.IH by simp
  next
    case (Some other)
    have s: "{k \<in> fst ` set (e # it). sl k \<noteq> None} = insert loc {k \<in> fst ` set it. sl k \<noteq> None}"
      using Some e by auto
    show ?thesis
      unfolding s using Some e Cons.IH
      by (auto simp: QHash_remove_def intro!: filter_cong)
  qed
qed

lemma pushLoop_outbox:
  "outbox (pushLoop sl it r) =
     outbox r @ map InvokeAddSource (filter (\<lambda>(n, u). sl n = None) it)"
  by (induction it arbitrary: r) (auto split: option.splits)

lemma pushLoop_logged:
  "logged (pushLoop sl it r) =
     logged r @ map (\<lambda>(n, u). WarnOtherRegistered n (the (sl n)))
                  (filter (\<lambda>(n, u). sl n \<noteq> None) it)"
  by (induction it arbitrary: r) (auto split: option.splits)

lemma pushLoop_rest:
  "state (pushLoop sl it r) = state r \<and> sourceLocations (pushLoop sl it r) = sourceLocations r"
  by (induction it arbitrary: r) (auto split: option.splits)

lemma count_list_distinct: "distinct xs \<Longrightarrow> x \<in> set xs \<Longrightarrow> count_list xs x = 1"
  by (induction xs) auto

lemma pushToRegistryIfNeeded_Valid:
  assumes "state r = Valid"
  shows "hostedSources (pushToRegistryIfNeeded r)
           = filter (\<lambda>(n, u). sourceLocations r n = None) (hostedSources r)"
    and "outbox (pushToRegistryIfNeeded r)
           = outbox r @ map InvokeAddSource
               (filter (\<lambda>(n, u). sourceLocations r n = None) (hostedSources r))"
    and "logged (pushToRegistryIfNeeded r)
           = logged r @ map (\<lambda>(n, u). WarnOtherRegistered n (the (sourceLocations r n)))
               (filter (\<lambda>(n, u). sourceLocations r n \<noteq> None) (hostedSources r))"
proof -
  have "filter (\<lambda>(n, u). n \<notin> {k \<in> fst ` set (hostedSources r). sourceLocations r k \<noteq> None})
          (hostedSources r)
        = filter (\<lambda>(n, u). sourceLocations r n = None) (hostedSources r)"
    by (rule filter_cong) force+
  then show "hostedSources (pushToRegistryIfNeeded r)
           = filter (\<lambda>(n, u). sourceLocations r n = None) (hostedSources r)"
    using assms by (simp add: pushToRegistryIfNeeded_def pushLoop_hosted)
  show "outbox (pushToRegistryIfNeeded r)
           = outbox r @ map InvokeAddSource
               (filter (\<lambda>(n, u). sourceLocations r n = None) (hostedSources r))"
    using assms by (simp add: pushToRegistryIfNeeded_def pushLoop_outbox)
  show "logged (pushToRegistryIfNeeded r)
           = logged r @ map (\<lambda>(n, u). WarnOtherRegistered n (the (sourceLocations r n)))
               (filter (\<lambda>(n, u). sourceLocations r n \<noteq> None) (hostedSources r))"
    using assms by (simp add: pushToRegistryIfNeeded_def pushLoop_logged)
qed

text \<open>
  A \<open>QHash\<close> has one entry for a key. The three functions keep the hosted-sources table
  so: the hypothesis of the next theorem holds of every table they produce.
\<close>

lemma QHash_insert_keys:
  "distinct (map fst h) \<Longrightarrow> distinct (map fst (QHash_insert h k v))"
proof (cases "QHash_contains h k")
  case True
  have "map fst (map (\<lambda>(k', v'). if k' = k then (k', v) else (k', v')) h) = map fst h"
    by (induction h) auto
  then show "distinct (map fst h) \<Longrightarrow> distinct (map fst (QHash_insert h k v))"
    using True by (simp only: QHash_insert_def if_True)
next
  case False
  then show "distinct (map fst h) \<Longrightarrow> distinct (map fst (QHash_insert h k v))"
    by (simp add: QHash_insert_def QHash_contains_def)
qed

lemma QHash_remove_keys:
  "distinct (map fst h) \<Longrightarrow> distinct (map fst (QHash_remove h k))"
  unfolding QHash_remove_def by (rule distinct_map_filter)

lemma addSource_keys:
  assumes "distinct (map fst (hostedSources r))"
  shows "distinct (map fst (hostedSources (addSource entry r)))"
proof (cases "QHash_contains (hostedSources r) (fst entry)")
  case True
  then show ?thesis using assms by (simp add: addSource_def)
next
  case False
  have "hostedSources (addSource entry r) = QHash_insert (hostedSources r) (fst entry) (snd entry)"
    using False by (simp add: addSource_def Let_def split: option.splits)
  then show ?thesis using QHash_insert_keys [OF assms] by simp
qed

lemma removeSource_keys:
  assumes "distinct (map fst (hostedSources r))"
  shows "distinct (map fst (hostedSources (removeSource entry r)))"
proof (cases "QHash_contains (hostedSources r) (fst entry)")
  case False
  then show ?thesis using assms by (simp add: removeSource_def)
next
  case True
  have "hostedSources (removeSource entry r) = QHash_remove (hostedSources r) (fst entry)"
    using True by (simp add: removeSource_def Let_def)
  then show ?thesis using QHash_remove_keys [OF assms] by simp
qed

lemma pushToRegistryIfNeeded_keys:
  assumes "distinct (map fst (hostedSources r))"
  shows "distinct (map fst (hostedSources (pushToRegistryIfNeeded r)))"
proof -
  have "distinct (map fst (hostedSources (pushLoop (sourceLocations r) (hostedSources r) r)))"
    unfolding pushLoop_hosted using assms by (rule distinct_map_filter)
  then show ?thesis using assms by (simp add: pushToRegistryIfNeeded_def)
qed

text \<open>
  Claim C2. The constructors connect \<open>stateChanged\<close> to \<open>pushToRegistryIfNeeded\<close>, so
  the function runs at every change of state and goes on only when the state it finds is
  \<open>Valid\<close>. Then, over a hosted-sources table with one entry per name: an entry whose
  name the remote table maps to a different endpoint is gone from the table afterwards,
  no add-notification is sent for it and the warning is logged; an entry whose name the
  remote table does not hold stays in the table and exactly one add-notification is sent
  for it; and the number of notifications sent is the number of entries whose name the
  remote table does not hold.
\<close>

theorem pushToRegistryIfNeeded_reconciles:
  assumes valid: "state r = Valid"
    and keys: "distinct (map fst (hostedSources r))"
  shows "\<exists>new. outbox (pushToRegistryIfNeeded r) = outbox r @ new
     \<and> (\<forall>(n, u) \<in> set (hostedSources r). \<forall>other.
           sourceLocations r n = Some other \<and> other \<noteq> u \<longrightarrow>
             \<not> QHash_contains (hostedSources (pushToRegistryIfNeeded r)) n
             \<and> InvokeAddSource (n, u) \<notin> set new
             \<and> WarnOtherRegistered n other \<in> set (logged (pushToRegistryIfNeeded r)))
     \<and> (\<forall>(n, u) \<in> set (hostedSources r).
           sourceLocations r n = None \<longrightarrow>
             (n, u) \<in> set (hostedSources (pushToRegistryIfNeeded r))
             \<and> count_list new (InvokeAddSource (n, u)) = 1)
     \<and> length new
         = length (filter (\<lambda>(n, u). sourceLocations r n = None) (hostedSources r))"
proof -
  let ?absent = "filter (\<lambda>(n, u). sourceLocations r n = None) (hostedSources r)"
  let ?new = "map InvokeAddSource ?absent"
  note eqs = pushToRegistryIfNeeded_Valid [OF valid]
  have d: "distinct (hostedSources r)"
    using keys by (rule distinct_map [THEN iffD1, THEN conjunct1])
  have sent: "outbox (pushToRegistryIfNeeded r) = outbox r @ ?new"
    by (rule eqs(2))
  have dropped: "\<not> QHash_contains (hostedSources (pushToRegistryIfNeeded r)) n
        \<and> InvokeAddSource (n, u) \<notin> set ?new
        \<and> WarnOtherRegistered n other \<in> set (logged (pushToRegistryIfNeeded r))"
    if "(n, u) \<in> set (hostedSources r)" "sourceLocations r n = Some other" for n u other
  proof -
    have "WarnOtherRegistered n other \<in> set (logged (pushToRegistryIfNeeded r))"
      unfolding eqs(3) using that by force
    moreover have "\<not> QHash_contains (hostedSources (pushToRegistryIfNeeded r)) n"
      unfolding eqs(1) using that by (auto simp: QHash_contains_def)
    moreover have "InvokeAddSource (n, u) \<notin> set ?new"
      using that by auto
    ultimately show ?thesis by blast
  qed
  have kept: "(n, u) \<in> set (hostedSources (pushToRegistryIfNeeded r))
        \<and> count_list ?new (InvokeAddSource (n, u)) = 1"
    if "(n, u) \<in> set (hostedSources r)" "sourceLocations r n = None" for n u
  proof -
    have m: "(n, u) \<in> set ?absent" using that by simp
    have "count_list ?new (InvokeAddSource (n, u)) = count_list ?absent (n, u)"
      by (rule count_list_map_conv) (simp add: inj_def)
    also have "\<dots> = 1"
      using d m by (intro count_list_distinct) simp_all
    finally show ?thesis unfolding eqs(1) using m by simp
  qed
  show ?thesis
    by (rule exI [of _ ?new]) (use sent dropped kept in auto)
qed

theorem pushToRegistryIfNeeded_reconciles_witness:
  "\<exists>new. outbox (pushToRegistryIfNeeded
        (registryAt Valid [(''alpha'', ''tcp://127.0.0.1:9001''), (''beta'', ''tcp://127.0.0.1:9001'')]
           [''alpha'' \<mapsto> ''tcp://127.0.0.1:9005''])) = new
     \<and> length new = 1
     \<and> count_list new (InvokeAddSource (''beta'', ''tcp://127.0.0.1:9001'')) = 1
     \<and> InvokeAddSource (''alpha'', ''tcp://127.0.0.1:9001'') \<notin> set new
     \<and> \<not> QHash_contains (hostedSources (pushToRegistryIfNeeded
        (registryAt Valid [(''alpha'', ''tcp://127.0.0.1:9001''), (''beta'', ''tcp://127.0.0.1:9001'')]
           [''alpha'' \<mapsto> ''tcp://127.0.0.1:9005'']))) ''alpha''"
  using pushToRegistryIfNeeded_reconciles
    [of "registryAt Valid [(''alpha'', ''tcp://127.0.0.1:9001''), (''beta'', ''tcp://127.0.0.1:9001'')]
           [''alpha'' \<mapsto> ''tcp://127.0.0.1:9005'']"]
  by (simp add: registryAt_def)

subsection \<open>registerMetatypes\<close>

lemma registerMetatypes_twice: "registerMetatypes (registerMetatypes p) = registerMetatypes p"
  by (simp add: registerMetatypes_def)

lemma registerMetatypes_funpow:
  "(registerMetatypes ^^ Suc n) p = registerMetatypes p"
  by (induction n) (simp_all add: registerMetatypes_twice)

text \<open>
  Claim C10. \<open>registerMetatypes\<close> is idempotent: any number of calls, one at least, leaves
  the process in the state one call leaves it in; a call made after the first changes
  nothing; and in a process that starts with the flag unset the two meta-type
  registrations are made once, however many calls follow.
\<close>

theorem registerMetatypes_idempotent:
  "(registerMetatypes ^^ Suc n) p = registerMetatypes p
   \<and> registerMetatypes (registerMetatypes p) = registerMetatypes p
   \<and> registrations ((registerMetatypes ^^ Suc n) (p\<lparr>initialized := False\<rparr>))
       = registrations p @ [SourceLocationType, SourceLocationsType]
   \<and> initialized (registerMetatypes p)"
  by (simp only: registerMetatypes_funpow registerMetatypes_twice)
     (simp add: registerMetatypes_def)

section \<open>Properties of copyStoredProperties\<close>

subsection \<open>Null pointers\<close>

text \<open>
  Claim C9. Each overload, given a null source or a null destination, returns the
  destination object and the stream as they were, and its only effect is the warning:
  no property is read or written. A property read or write in the effects of a call means
  that the pointers the overload needs were not null.
\<close>

theorem copyStoredProperties_null:
  "copyStoredProperties mo None dst = (dst, [WarnNullSource])
   \<and> copyStoredProperties mo (Some s) None = (None, [WarnNullDestination])
   \<and> copyStoredProperties_toStream codec mo None ds = (ds, [WarnNullSource])
   \<and> copyStoredProperties_fromStream codec mo ds None = (ds, None, [WarnNullDestination])
   \<and> (PropertyRead \<in> set (snd (copyStoredProperties mo src dst))
        \<or> PropertyWrite \<in> set (snd (copyStoredProperties mo src dst))
        \<longrightarrow> src \<noteq> None \<and> dst \<noteq> None)
   \<and> (PropertyRead \<in> set (snd (copyStoredProperties_toStream codec mo src ds)) \<longrightarrow> src \<noteq> None)
   \<and> (PropertyWrite \<in> set (snd (snd (copyStoredProperties_fromStream codec mo ds dst)))
        \<longrightarrow> dst \<noteq> None)"
  by (auto simp: copyStoredProperties_def copyStoredProperties_toStream_def
      copyStoredProperties_fromStream_def split: option.splits)

theorem copyStoredProperties_null_witness:
  "PropertyRead \<in> set (snd (copyStoredProperties [xProperty, yProperty] (Some (3, 4)) (Some (0, 0))))
   \<and> PropertyRead \<in> set (snd (copyStoredProperties_toStream plainCodec [xProperty, yProperty]
        (Some (3, 4)) [Variant 3, Variant 4]))
   \<and> PropertyWrite \<in> set (snd (snd (copyStoredProperties_fromStream plainCodec
        [xProperty, yProperty] [Variant 3, Variant 4] (Some (0, 0)))))
   \<and> Some (3 :: int, 4 :: int) \<noteq> None
   \<and> copyStoredProperties [xProperty, yProperty] None (Some (0, 0)) = (Some (0, 0), [WarnNullSource])"
  using copyStoredProperties_null [where mo = "[xProperty, yProperty]" and codec = plainCodec
      and ds = "[Variant 3, Variant 4]" and src = "Some (3, 4)" and dst = "Some (0, 0)"]
  by (simp add: copyStoredProperties_def copyStoredProperties_toStream_def
      copyStoredProperties_fromStream_def stream_read_def)

subsection \<open>Round trip through the stream\<close>

lemma toStreamLoop_result:
  "toStreamLoop codec mo s (ds, es)
     = (ds @ map (\<lambda>mp. encodeVariant codec (readOnGadget mp s)) mo, es @ map (\<lambda>_. PropertyRead) mo)"
  by (induction mo arbitrary: ds es) auto

lemma fromStreamLoop_stream:
  "fst (fromStreamLoop codec ps (map f ps @ rest, d, es)) = rest"
  by (induction ps arbitrary: d es) (simp_all add: stream_read_def)

lemma fromStreamLoop_frame:
  assumes "\<forall>mq \<in> set ps. \<forall>g v. readOnGadget q (writeOnGadget mq g v) = readOnGadget q g"
  shows "readOnGadget q (fst (snd (fromStreamLoop codec ps (ds, d, es)))) = readOnGadget q d"
  using assms
proof (induction ps arbitrary: ds d es)
  case Nil
  then show ?case by simp
next
  case (Cons p ps)
  then show ?case by (simp split: prod.splits)
qed

lemma fromStreamLoop_values:
  assumes "\<forall>mp \<in> set ps. roundTrips codec (metaType mp) (readOnGadget mp s)"
    and "\<forall>mp \<in> set ps. \<forall>g.
           readOnGadget mp (writeOnGadget mp g (readOnGadget mp s)) = readOnGadget mp s"
    and "\<forall>mp \<in> set ps. \<forall>mq \<in> set ps. mp \<noteq> mq \<longrightarrow>
           (\<forall>g v. readOnGadget mp (writeOnGadget mq g v) = readOnGadget mp g)"
    and "mp \<in> set ps"
  shows "readOnGadget mp (fst (snd (fromStreamLoop codec ps
           (map (\<lambda>mp. encodeVariant codec (readOnGadget mp s)) ps @ rest, d, es))))
         = readOnGadget mp s"
  using assms
proof (induction ps arbitrary: d es)
  case Nil
  then show ?case by simp
next
  case (Cons p ps)
  let ?d1 = "writeOnGadget p d (readOnGadget p s)"
  let ?es1 = "es @ [PropertyWrite]"
  let ?ds = "map (\<lambda>mp. encodeVariant codec (readOnGadget mp s)) ps @ rest"
  have dec: "decodeVariant codec (encodeVariant codec (readOnGadget p s)) (metaType p)
      = readOnGadget p s"
    using Cons.prems(1) by (simp add: roundTrips_def)
  have step: "fromStreamLoop codec (p # ps)
        (map (\<lambda>mp. encodeVariant codec (readOnGadget mp s)) (p # ps) @ rest, d, es)
      = fromStreamLoop codec ps (?ds, ?d1, ?es1)"
    by (simp add: stream_read_def dec)
  show ?case
  proof (cases "mp \<in> set ps")
    case True
    have "readOnGadget mp (fst (snd (fromStreamLoop codec ps (?ds, ?d1, ?es1)))) = readOnGadget mp s"
      by (rule Cons.IH) (use Cons.prems True in auto)
    then show ?thesis by (simp only: step)
  next
    case False
    then have mp: "mp = p" using Cons.prems(4) by simp
    have "\<forall>mq \<in> set ps. \<forall>g v. readOnGadget p (writeOnGadget mq g v) = readOnGadget p g"
      using Cons.prems(3) False mp by auto
    then have "readOnGadget p (fst (snd (fromStreamLoop codec ps (?ds, ?d1, ?es1))))
        = readOnGadget p ?d1"
      by (rule fromStreamLoop_frame)
    also have "\<dots> = readOnGadget p s"
      using Cons.prems(2) by simp
    finally show ?thesis by (simp only: step mp)
  qed
qed

text \<open>
  Claim C7, as amended. Let every property of the meta-object be written by
  \<open>writeOnGadget\<close> (reading it after writing the source's value gives that value), let
  writing one property leave the others' values, and let the codec round-trip the
  source's value of every property. Then writing the properties of a source object to an
  empty stream and reading them back into a destination object uses the stream up and
  leaves every property of the destination equal to the source's.
\<close>

theorem copyStoredProperties_roundtrip:
  assumes "\<forall>mp \<in> set mo. roundTrips codec (metaType mp) (readOnGadget mp s)"
    and "\<forall>mp \<in> set mo. \<forall>g.
           readOnGadget mp (writeOnGadget mp g (readOnGadget mp s)) = readOnGadget mp s"
    and "\<forall>mp \<in> set mo. \<forall>mq \<in> set mo. mp \<noteq> mq \<longrightarrow>
           (\<forall>g v. readOnGadget mp (writeOnGadget mq g v) = readOnGadget mp g)"
  shows "\<exists>g effects.
           copyStoredProperties_fromStream codec mo
             (fst (copyStoredProperties_toStream codec mo (Some s) [])) (Some d)
           = ([], Some g, effects)
           \<and> (\<forall>mp \<in> set mo. readOnGadget mp g = readOnGadget mp s)"
proof -
  let ?ds = "map (\<lambda>mp. encodeVariant codec (readOnGadget mp s)) mo"
  let ?r = "fromStreamLoop codec mo (?ds @ [], d, [])"
  have w: "fst (copyStoredProperties_toStream codec mo (Some s) []) = ?ds @ []"
    by (simp add: copyStoredProperties_toStream_def toStreamLoop_result)
  have "fst ?r = []"
    by (rule fromStreamLoop_stream)
  moreover have "\<forall>mp \<in> set mo. readOnGadget mp (fst (snd ?r)) = readOnGadget mp s"
  proof
    fix mp assume "mp \<in> set mo"
    with assms show "readOnGadget mp (fst (snd ?r)) = readOnGadget mp s"
      by (rule fromStreamLoop_values)
  qed
  ultimately show ?thesis
    unfolding w copyStoredProperties_fromStream_def
    by (cases ?r) auto
qed

theorem copyStoredProperties_roundtrip_witness:
  "\<exists>g effects.
      copyStoredProperties_fromStream plainCodec [xProperty, yProperty]
        (fst (copyStoredProperties_toStream plainCodec [xProperty, yProperty] (Some (3, 4)) []))
        (Some (0, 0))
      = ([], Some g, effects)
      \<and> readOnGadget xProperty g = Variant 3 \<and> readOnGadget yProperty g = Variant 4"
proof -
  have codec: "\<forall>mp \<in> set [xProperty, yProperty].
      roundTrips plainCodec (metaType mp) (readOnGadget mp (3, 4))"
    by (simp add: roundTrips_def plainCodec_def)
  have stores: "\<forall>mp \<in> set [xProperty, yProperty]. \<forall>g.
      readOnGadget mp (writeOnGadget mp g (readOnGadget mp (3, 4))) = readOnGadget mp (3, 4)"
    by (simp add: xProperty_def yProperty_def)
  have apart: "\<forall>mp \<in> set [xProperty, yProperty]. \<forall>mq \<in> set [xProperty, yProperty].
      mp \<noteq> mq \<longrightarrow> (\<forall>g v. readOnGadget mp (writeOnGadget mq g v) = readOnGadget mp g)"
    by (auto simp: xProperty_def yProperty_def split: QVariant.splits)
  from copyStoredProperties_roundtrip [OF codec stores apart, of "(0, 0)"]
  show ?thesis
    by (auto simp: xProperty_def yProperty_def)
qed

text \<open>
  Claim C7 as stated, for every gadget meta-object, fails where a property cannot be
  written: the copy reads the value from the stream, the write fails, and the
  destination keeps its own value \<open>0\<close> where the source has \<open>1\<close>.
\<close>

theorem copyStoredProperties_roundtrip_counterexample:
  "copyStoredProperties_fromStream plainCodec [constantProperty]
      (fst (copyStoredProperties_toStream plainCodec [constantProperty] (Some (1, 0)) []))
      (Some (0, 0))
     = ([], Some (0, 0), [PropertyWrite])
   \<and> readOnGadget constantProperty (0, 0) = Variant 0
   \<and> readOnGadget constantProperty (1, 0) = Variant 1"
  by (simp add: copyStoredProperties_fromStream_def copyStoredProperties_toStream_def
      constantProperty_def plainCodec_def stream_read_def)

section \<open>Properties of classSignature\<close>

subsection \<open>The table is only looked up\<close>

lemma QHash_insert_map_of:
  "map_of (QHash_insert h k v) = (map_of h)(k \<mapsto> v)"
proof (cases "QHash_contains h k")
  case False
  then show ?thesis by (rule QHash_insert_fresh_map_of)
next
  case True
  have "map_of (map (\<lambda>(k', v'). if k' = k then (k', v) else (k', v')) h) x
      = (if x = k then (if k \<in> fst ` set h then Some v else None) else map_of h x)" for x
    by (induction h) force+
  then show ?thesis using True
    by (auto simp: QHash_insert_def QHash_contains_def fun_eq_iff)
qed

lemma typeData_cong:
  "map_of a = map_of b \<Longrightarrow> typeData t a = typeData t b"
proof (induction t a rule: typeData.induct)
  case (1 type specialTypes)
  show ?case
  proof (cases "map_of specialTypes type")
    case (Some v)
    then show ?thesis using "1.prems"
      by (simp add: typeData.simps [of type])
  next
    case None
    then have nb: "map_of b type = None" using "1.prems" by simp
    show ?thesis
    proof (cases "lastIndexOf type ''::'' > 0")
      case True
      have "typeData (mid type (lastIndexOf type ''::'' + 2)) specialTypes
          = typeData (mid type (lastIndexOf type ''::'' + 2)) b"
        using None True "1.prems" by (intro "1.IH") simp_all
      then show ?thesis using None nb True
        by (simp add: typeData.simps [of type] Let_def)
    next
      case False
      then show ?thesis using None nb
        by (simp add: typeData.simps [of type] Let_def)
    qed
  qed
qed

lemma localTypes_cong:
  "map_of gp = map_of gp' \<Longrightarrow> enums ac = enums ac' \<Longrightarrow>
     map_of (localTypes gp ac) = map_of (localTypes gp' ac')"
proof -
  have "map_of gp = map_of gp' \<Longrightarrow>
      map_of (foldl (\<lambda>types e. QHash_insert types (enumName e) (enumSignature e)) gp es)
      = map_of (foldl (\<lambda>types e. QHash_insert types (enumName e) (enumSignature e)) gp' es)"
    for es
    by (induction es arbitrary: gp gp') (simp_all add: QHash_insert_map_of)
  then show "map_of gp = map_of gp' \<Longrightarrow> enums ac = enums ac' \<Longrightarrow>
     map_of (localTypes gp ac) = map_of (localTypes gp' ac')"
    by (simp add: localTypes_def)
qed

lemma functionsData_cong:
  assumes "map_of a = map_of b"
  shows "functionsData P fs a = functionsData P fs b"
proof -
  have "\<And>t. typeData t a = typeData t b"
    using assms by (rule typeData_cong)
  then show ?thesis by (simp add: functionsData_def)
qed

lemma foldl_append_concat:
  "foldl (\<lambda>acc x. acc @ f x) acc xs = acc @ concat (map f xs)"
  by (induction xs arbitrary: acc) simp_all

lemma classSignatureData_eq:
  "classSignatureData P gp ac =
     toLatin1 (className ac)
     @ concat (map (\<lambda>p. toLatin1 (propName p) @ typeData (propType p) (localTypes gp ac)
                         @ modifierBytes P (modifier p)) (properties ac))
     @ functionsData P (signalsList ac) (localTypes gp ac)
     @ functionsData P (slotsList ac) (localTypes gp ac)"
  by (simp add: classSignatureData_def Let_def foldl_append_concat)

text \<open>
  Claim C6. \<open>classSignature\<close> is a function of the class name, the properties, the
  signals, the slots, the local enums and the entries of the global table of enums and
  PODs: two class descriptions that agree in these, and two tables with the same entries
  in whatever order the hash holds them, give the same digest on a given platform.
\<close>

theorem classSignature_deterministic:
  assumes "className ac = className ac'"
    and "properties ac = properties ac'"
    and "signalsList ac = signalsList ac'"
    and "slotsList ac = slotsList ac'"
    and "enums ac = enums ac'"
    and "map_of globalEnumsPODs = map_of globalEnumsPODs'"
  shows "classSignature P globalEnumsPODs ac = classSignature P globalEnumsPODs' ac'"
proof -
  have m: "map_of (localTypes globalEnumsPODs ac) = map_of (localTypes globalEnumsPODs' ac')"
    using assms(6,5) by (rule localTypes_cong)
  have t: "\<And>t. typeData t (localTypes globalEnumsPODs ac) = typeData t (localTypes globalEnumsPODs' ac')"
    using m by (rule typeData_cong)
  have "classSignatureData P globalEnumsPODs ac = classSignatureData P globalEnumsPODs' ac'"
    unfolding classSignatureData_eq
    using assms(1-4) t functionsData_cong [OF m] by simp
  then show ?thesis by (simp add: classSignature_def)
qed

theorem classSignature_deterministic_witness:
  "\<forall>P. classSignature P [(''Kind'', ''Kinda0b1''), (''Point'', ''Pointxintyint'')]
          (counterClass ''Kind'')
       = classSignature P [(''Point'', ''Pointxintyint''), (''Kind'', ''Kinda0b1'')]
          ((counterClass ''Kind'')\<lparr>modelMetadata := [\<lparr>propertyIndex = 0, roles = [''display'']\<rparr>],
             subClassPropertyIndices := [0]\<rparr>)"
proof
  fix P
  have m: "map_of [(''Kind'', ''Kinda0b1''), (''Point'', ''Pointxintyint'')]
      = map_of [(''Point'', ''Pointxintyint''), (''Kind'', ''Kinda0b1'')]"
    by (rule ext) simp
  show "classSignature P [(''Kind'', ''Kinda0b1''), (''Point'', ''Pointxintyint'')]
          (counterClass ''Kind'')
       = classSignature P [(''Point'', ''Pointxintyint''), (''Kind'', ''Kinda0b1'')]
          ((counterClass ''Kind'')\<lparr>modelMetadata := [\<lparr>propertyIndex = 0, roles = [''display'']\<rparr>],
             subClassPropertyIndices := [0]\<rparr>)"
    by (rule classSignature_deterministic [OF _ _ _ _ _ m]) simp_all
qed

subsection \<open>Changing the type of a property\<close>

lemma hexDigit_inj: "a < 16 \<Longrightarrow> b < 16 \<Longrightarrow> hexDigit a = hexDigit b \<Longrightarrow> a = b"
  by (auto simp: hexDigit_def char_of_eq_iff take_bit_nat_eq_self split: if_splits)

lemma toHex_inj: "toHex a = toHex b \<Longrightarrow> a = b"
proof (induction a arbitrary: b)
  case Nil
  then show ?case by (cases b) (simp_all add: toHex_def)
next
  case (Cons c cs)
  then obtain d ds where b: "b = d # ds" by (cases b) (auto simp: toHex_def)
  have c: "(of_char c :: nat) < 256" and d: "(of_char d :: nat) < 256"
    using mod_less_divisor [of 256 "of_char c :: nat"] mod_less_divisor [of 256 "of_char d :: nat"]
    by simp_all
  from Cons.prems b have h: "hexDigit (of_char c div 16) = hexDigit (of_char d div 16)"
    "hexDigit (of_char c mod 16) = hexDigit (of_char d mod 16)" "toHex cs = toHex ds"
    by (simp_all add: toHex_def)
  have c16: "(of_char c :: nat) div 16 < 16" and d16: "(of_char d :: nat) div 16 < 16"
    using c d by (simp_all add: less_mult_imp_div_less)
  have "(of_char c :: nat) div 16 = of_char d div 16"
    using c16 d16 h(1) by (rule hexDigit_inj)
  moreover have "(of_char c :: nat) mod 16 = of_char d mod 16"
    by (intro hexDigit_inj h) auto
  ultimately have "(of_char c :: nat) = of_char d"
    by (metis div_mult_mod_eq)
  then have "c = d" by simp
  then show ?case using Cons.IH [OF h(3)] b by simp
qed

lemma propsData_split:
  "concat (map f (pre @ p # post)) = concat (map f pre) @ f p @ concat (map f post)"
  by simp

lemma classSignatureData_type_change:
  assumes "properties ac = pre @ p # post"
  shows "(classSignatureData P gp (ac\<lparr>properties := pre @ p\<lparr>propType := t\<rparr> # post\<rparr>)
            = classSignatureData P gp ac)
          = (typeData t (localTypes gp ac) = typeData (propType p) (localTypes gp ac))"
proof -
  let ?ac' = "ac\<lparr>properties := pre @ p\<lparr>propType := t\<rparr> # post\<rparr>"
  let ?f = "\<lambda>p. toLatin1 (propName p) @ typeData (propType p) (localTypes gp ac)
                         @ modifierBytes P (modifier p)"
  have l: "localTypes gp ?ac' = localTypes gp ac"
    by (simp add: localTypes_def)
  have a: "classSignatureData P gp ac
      = (toLatin1 (className ac) @ concat (map ?f pre) @ toLatin1 (propName p))
        @ typeData (propType p) (localTypes gp ac)
        @ (modifierBytes P (modifier p) @ concat (map ?f post)
           @ functionsData P (signalsList ac) (localTypes gp ac)
           @ functionsData P (slotsList ac) (localTypes gp ac))"
    by (simp only: classSignatureData_eq assms propsData_split append_assoc)
  have b: "classSignatureData P gp ?ac'
      = (toLatin1 (className ac) @ concat (map ?f pre) @ toLatin1 (propName p))
        @ typeData t (localTypes gp ac)
        @ (modifierBytes P (modifier p) @ concat (map ?f post)
           @ functionsData P (signalsList ac) (localTypes gp ac)
           @ functionsData P (slotsList ac) (localTypes gp ac))"
    by (simp add: classSignatureData_eq l)
  show ?thesis
    by (simp only: a b same_append_eq append_same_eq)
qed

lemma classSignature_eq_iff:
  "(classSignature P gp ac1 = classSignature P gp ac2)
     = (Sha1 P (classSignatureData P gp ac1) = Sha1 P (classSignatureData P gp ac2))"
proof
  assume "classSignature P gp ac1 = classSignature P gp ac2"
  then have "toHex (Sha1 P (classSignatureData P gp ac1)) = toHex (Sha1 P (classSignatureData P gp ac2))"
    by (simp only: classSignature_def)
  then show "Sha1 P (classSignatureData P gp ac1) = Sha1 P (classSignatureData P gp ac2)"
    by (rule toHex_inj)
next
  assume "Sha1 P (classSignatureData P gp ac1) = Sha1 P (classSignatureData P gp ac2)"
  then show "classSignature P gp ac1 = classSignature P gp ac2"
    by (simp only: classSignature_def)
qed

lemma classSignatureData_includes:
  assumes "q \<in> set (properties ac)"
  shows "\<exists>a b. classSignatureData P gp ac
      = a @ toLatin1 (propName q) @ typeData (propType q) (localTypes gp ac)
          @ modifierBytes P (modifier q) @ b"
proof -
  let ?f = "\<lambda>p. toLatin1 (propName p) @ typeData (propType p) (localTypes gp ac)
                         @ modifierBytes P (modifier p)"
  from assms obtain xs ys where s: "properties ac = xs @ q # ys"
    by (auto simp: in_set_conv_decomp)
  have "classSignatureData P gp ac
      = (toLatin1 (className ac) @ concat (map ?f xs))
        @ toLatin1 (propName q) @ typeData (propType q) (localTypes gp ac)
        @ modifierBytes P (modifier q)
        @ (concat (map ?f ys)
           @ functionsData P (signalsList ac) (localTypes gp ac)
           @ functionsData P (slotsList ac) (localTypes gp ac))"
    by (simp only: classSignatureData_eq s propsData_split append_assoc)
  then show ?thesis by blast
qed

text \<open>
  What \<open>typeData\<close> gives for a plain type. The last \<open>::\<close> of a type with a colon-free
  base stands right before the base.
\<close>

lemma filter_rev_upt_last:
  "i < n \<Longrightarrow> P i \<Longrightarrow> \<forall>j. i < j \<and> j < n \<longrightarrow> \<not> P j \<Longrightarrow>
     filter P (rev [0 ..< n]) = i # filter P (rev [0 ..< i])"
  by (induction n) (auto simp: less_Suc_eq)

lemma lastIndexOf_last:
  assumes "i + length needle \<le> length s"
    and "take (length needle) (drop i s) = needle"
    and "\<forall>j. i < j \<longrightarrow> take (length needle) (drop j s) \<noteq> needle"
  shows "lastIndexOf s needle = int i"
proof -
  have "i < Suc (length s) - length needle" using assms(1) by simp
  then have "filter (\<lambda>i. take (length needle) (drop i s) = needle)
        (rev [0 ..< Suc (length s) - length needle])
      = i # filter (\<lambda>i. take (length needle) (drop i s) = needle) (rev [0 ..< i])"
    using assms(2,3) by (intro filter_rev_upt_last) auto
  then show ?thesis by (simp add: lastIndexOf_def)
qed

lemma lastIndexOf_none:
  assumes "\<forall>j. take (length needle) (drop j s) \<noteq> needle"
  shows "lastIndexOf s needle = - 1"
proof -
  have "filter (\<lambda>i. take (length needle) (drop i s) = needle)
        (rev [0 ..< Suc (length s) - length needle]) = []"
    using assms by (simp add: filter_empty_conv)
  then show ?thesis by (simp add: lastIndexOf_def)
qed

lemma no_colon_no_scope:
  assumes "CHR '':'' \<notin> set b"
  shows "take (length ''::'') (drop j b) \<noteq> ''::''"
proof
  assume "take (length ''::'') (drop j b) = ''::''"
  then have "set (take (length ''::'') (drop j b)) = set ''::''" by (rule arg_cong)
  then have "CHR '':'' \<in> set (take (length ''::'') (drop j b))" by simp
  then have "CHR '':'' \<in> set b"
    by (meson in_set_dropD in_set_takeD)
  with assms show False by simp
qed

lemma typeData_unqualified:
  assumes "CHR '':'' \<notin> set u"
  shows "typeData u specialTypes
     = (case map_of specialTypes u of Some v \<Rightarrow> v | None \<Rightarrow> toLatin1 u)"
proof -
  have "\<forall>j. take (length ''::'') (drop j u) \<noteq> ''::''"
    using no_colon_no_scope [OF assms] by blast
  then have "lastIndexOf u ''::'' = - 1"
    by (rule lastIndexOf_none)
  then show ?thesis
    by (simp add: typeData.simps [of u] split: option.splits)
qed

lemma scope_after_qualifier:
  assumes "CHR '':'' \<notin> set b" and "length q < j"
  shows "take (length ''::'') (drop j (q @ ''::'' @ b)) \<noteq> ''::''"
proof -
  define k where "k = j - Suc (length q)"
  have j: "j = length q + Suc k" using assms(2) by (simp add: k_def)
  have d: "drop j (q @ ''::'' @ b) = drop k (CHR '':'' # b)"
    unfolding j by (simp only: drop_append drop_all [OF le_add1] append_Nil
        diff_add_inverse append.simps drop_Suc_Cons)
  show ?thesis
  proof (cases k)
    case 0
    have "take 1 b \<noteq> '':''"
    proof
      assume "take 1 b = '':''"
      then have "set (take 1 b) = set '':''" by (rule arg_cong)
      then have "CHR '':'' \<in> set (take 1 b)" by simp
      then show False using assms(1) by (meson in_set_takeD)
    qed
    then show ?thesis unfolding d 0 by simp
  next
    case (Suc m)
    show ?thesis unfolding d Suc drop_Suc_Cons by (rule no_colon_no_scope [OF assms(1)])
  qed
qed

lemma typeData_qualified:
  assumes "q \<noteq> []" and "CHR '':'' \<notin> set b"
  shows "typeData (q @ ''::'' @ b) specialTypes
     = (case map_of specialTypes (q @ ''::'' @ b) of
          Some v \<Rightarrow> v
        | None \<Rightarrow> (case map_of specialTypes b of Some v \<Rightarrow> v | None \<Rightarrow> toLatin1 b))"
proof -
  define t where "t = q @ ''::'' @ b"
  have "length q + length ''::'' \<le> length t"
    by (simp add: t_def)
  moreover have "take (length ''::'') (drop (length q) t) = ''::''"
    by (simp add: t_def)
  moreover have "\<forall>j. length q < j \<longrightarrow> take (length ''::'') (drop j t) \<noteq> ''::''"
    unfolding t_def using scope_after_qualifier [OF assms(2)] by blast
  ultimately have pos: "lastIndexOf t ''::'' = int (length q)"
    by (rule lastIndexOf_last)
  have m: "mid t (int (length q) + 2) = b"
    by (simp add: mid_def t_def nat_add_distrib)
  have q: "0 < int (length q)" using assms(1) by simp
  have "typeData t specialTypes
     = (case map_of specialTypes t of
          Some v \<Rightarrow> v
        | None \<Rightarrow> typeData b specialTypes)"
    by (subst typeData.simps) (simp only: pos m q Let_def if_True)
  then show ?thesis
    unfolding t_def typeData_unqualified [OF assms(2)] .
qed

lemma baseName_split:
  "t = take (length t - length (baseName t)) t @ baseName t"
proof -
  define front where "front = rev (dropWhile (\<lambda>c. c \<noteq> CHR '':'') (rev t))"
  have t: "t = front @ baseName t"
    unfolding front_def baseName_def
    by (metis rev_append rev_rev_ident takeWhile_dropWhile_id)
  have "length t - length (baseName t) = length front"
    using t [THEN arg_cong [of _ _ length]] by simp
  then have "take (length t - length (baseName t)) t = take (length front) (front @ baseName t)"
    using t by simp
  then have "take (length t - length (baseName t)) t = front"
    by simp
  then show ?thesis using t by simp
qed

lemma baseName_no_colon: "CHR '':'' \<notin> set (baseName t)"
  by (auto simp: baseName_def dest: set_takeWhileD)

lemma plainType_cases:
  assumes "plainType t"
  shows "(CHR '':'' \<notin> set t \<and> baseName t = t)
     \<or> (\<exists>qualifier. t = qualifier @ ''::'' @ baseName t \<and> qualifier \<noteq> [])"
proof (cases "take (length t - length (baseName t)) t = []")
  case True
  then have "t = baseName t" by (metis baseName_split append_Nil)
  then show ?thesis using baseName_no_colon [of t] by simp
next
  case False
  then obtain qualifier where "take (length t - length (baseName t)) t = qualifier @ ''::''"
      "qualifier \<noteq> []"
    using assms unfolding plainType_def Let_def by blast
  then have "t = qualifier @ ''::'' @ baseName t \<and> qualifier \<noteq> []"
    using baseName_split [of t] by (metis append_assoc)
  then show ?thesis by blast
qed

lemma typeData_plain:
  assumes "plainType t"
  shows "typeData t specialTypes = plainTypeData specialTypes t"
  using plainType_cases [OF assms]
proof
  assume a: "CHR '':'' \<notin> set t \<and> baseName t = t"
  then show ?thesis
    using typeData_unqualified [of t specialTypes]
    by (simp add: plainTypeData_def split: option.splits)
next
  assume "\<exists>qualifier. t = qualifier @ ''::'' @ baseName t \<and> qualifier \<noteq> []"
  then obtain qualifier where q: "t = qualifier @ ''::'' @ baseName t" "qualifier \<noteq> []"
    by blast
  have "typeData (qualifier @ ''::'' @ baseName t) specialTypes
      = (case map_of specialTypes (qualifier @ ''::'' @ baseName t) of
          Some v \<Rightarrow> v
        | None \<Rightarrow> (case map_of specialTypes (baseName t) of Some v \<Rightarrow> v
            | None \<Rightarrow> toLatin1 (baseName t)))"
    using q(2) baseName_no_colon by (rule typeData_qualified)
  then show ?thesis
    unfolding plainTypeData_def q(1) [symmetric] .
qed

text \<open>
  Claim C5, as amended. When one property's type is changed from a plain type to a plain
  type and nothing else is changed, the bytes that \<open>classSignature\<close> hashes change if and
  only if the type data of the two types differ, the type data of a plain type being the
  entry that the table of enums and PODs (with the class's own enums entered) has for the
  type as written, else the entry it has for the type's base, else the base; this is what
  \<open>typeData\<close> computes for every plain type and every table. Two signatures are equal if
  and only if the SHA-1 digests of the hashed bytes are equal. The hashed bytes hold, for
  every property, its name, what \<open>typeData\<close> gives for its type, and its modifier, one
  after the other. Nothing is said of a type whose last \<open>::\<close> has a \<open><\<close> before it, or
  nothing before it.
\<close>

theorem classSignature_property_type:
  assumes "properties ac = pre @ p # post"
    and "plainType (propType p)" and "plainType t"
  shows "((classSignatureData P gp (ac\<lparr>properties := pre @ p\<lparr>propType := t\<rparr> # post\<rparr>)
            = classSignatureData P gp ac)
          = (plainTypeData (localTypes gp ac) t = plainTypeData (localTypes gp ac) (propType p)))
     \<and> ((classSignature P gp (ac\<lparr>properties := pre @ p\<lparr>propType := t\<rparr> # post\<rparr>)
            = classSignature P gp ac)
          = (Sha1 P (classSignatureData P gp (ac\<lparr>properties := pre @ p\<lparr>propType := t\<rparr> # post\<rparr>))
            = Sha1 P (classSignatureData P gp ac)))
     \<and> (\<forall>q \<in> set (properties ac). \<exists>a b.
           classSignatureData P gp ac
             = a @ toLatin1 (propName q) @ typeData (propType q) (localTypes gp ac)
                 @ modifierBytes P (modifier q) @ b)
     \<and> (plainType u \<longrightarrow> typeData u specialTypes = plainTypeData specialTypes u)"
proof (intro conjI ballI impI)
  have "(classSignatureData P gp (ac\<lparr>properties := pre @ p\<lparr>propType := t\<rparr> # post\<rparr>)
            = classSignatureData P gp ac)
          = (typeData t (localTypes gp ac) = typeData (propType p) (localTypes gp ac))"
    using assms(1) by (rule classSignatureData_type_change)
  then show "(classSignatureData P gp (ac\<lparr>properties := pre @ p\<lparr>propType := t\<rparr> # post\<rparr>)
            = classSignatureData P gp ac)
          = (plainTypeData (localTypes gp ac) t = plainTypeData (localTypes gp ac) (propType p))"
    by (simp only: typeData_plain [OF assms(2)] typeData_plain [OF assms(3)])
  show "(classSignature P gp (ac\<lparr>properties := pre @ p\<lparr>propType := t\<rparr> # post\<rparr>)
            = classSignature P gp ac)
          = (Sha1 P (classSignatureData P gp (ac\<lparr>properties := pre @ p\<lparr>propType := t\<rparr> # post\<rparr>))
            = Sha1 P (classSignatureData P gp ac))"
    by (rule classSignature_eq_iff)
next
  fix q assume "q \<in> set (properties ac)"
  then show "\<exists>a b. classSignatureData P gp ac
             = a @ toLatin1 (propName q) @ typeData (propType q) (localTypes gp ac)
                 @ modifierBytes P (modifier q) @ b"
    by (rule classSignatureData_includes)
next
  assume "plainType u"
  then show "typeData u specialTypes = plainTypeData specialTypes u"
    by (rule typeData_plain)
qed

lemma typeData_int: "typeData ''int'' [] = ''int''"
  by (simp add: typeData.simps [of "''int''"] lastIndexOf_def toLatin1_def)

lemma typeData_N_int: "typeData ''N::int'' [] = ''int''"
  by (simp add: typeData.simps [of "''N::int''"] lastIndexOf_def mid_def typeData_int)

lemma counterClass_change:
  "counterClass t
     = (counterClass ''int'')\<lparr>properties :=
          [] @ (\<lparr>propType = ''int'', propName = ''count'', modifier = ReadWrite, isPointer = False\<rparr>
                 \<lparr>propType := t\<rparr>) # []\<rparr>"
  by (simp add: counterClass_def)

lemma counterClass_properties:
  "properties (counterClass ''int'')
     = [] @ \<lparr>propType = ''int'', propName = ''count'', modifier = ReadWrite, isPointer = False\<rparr> # []"
  by (simp add: counterClass_def)

lemma counterClass_localTypes: "localTypes [] (counterClass t) = []"
  by (simp add: counterClass_def localTypes_def)

lemma plainType_int: "plainType ''int''"
  by (simp add: plainType_def baseName_def)

lemma plainType_N_bool: "plainType ''N::bool''"
  by (simp add: plainType_def baseName_def)

lemma plainType_M_Kind: "plainType ''M::Kind''"
  by (simp add: plainType_def baseName_def)

theorem classSignature_property_type_witness:
  "(\<forall>P. classSignatureData P [] (counterClass ''N::bool'')
          \<noteq> classSignatureData P [] (counterClass ''int''))
   \<and> typeData ''M::Kind'' [(''Kind'', ''Kinda0b1'')] = ''Kinda0b1''"
proof (intro conjI allI)
  fix P
  have plain: "plainType (propType \<lparr>propType = ''int'', propName = ''count'', modifier = ReadWrite,
      isPointer = False\<rparr>)"
    using plainType_int by simp
  have "(classSignatureData P [] (counterClass ''N::bool'') = classSignatureData P [] (counterClass ''int''))
      = (plainTypeData [] ''N::bool'' = plainTypeData [] ''int'')"
    using classSignature_property_type [OF counterClass_properties plain plainType_N_bool,
        of P "[]"]
    by (simp only: counterClass_change [symmetric] counterClass_localTypes ASTProperty.select_convs)
  then show "classSignatureData P [] (counterClass ''N::bool'')
      \<noteq> classSignatureData P [] (counterClass ''int'')"
    by (simp add: plainTypeData_def baseName_def toLatin1_def)
next
  have "typeData ''M::Kind'' [(''Kind'', ''Kinda0b1'')]
      = plainTypeData [(''Kind'', ''Kinda0b1'')] ''M::Kind''"
    using classSignature_property_type [OF counterClass_properties _ plainType_int,
        where u = "''M::Kind''" and specialTypes = "[(''Kind'', ''Kinda0b1'')]"]
      plainType_int plainType_M_Kind
    by simp
  then show "typeData ''M::Kind'' [(''Kind'', ''Kinda0b1'')] = ''Kinda0b1''"
    by (simp add: plainTypeData_def baseName_def)
qed

text \<open>
  Claim C5 as stated fails: \<open>typeData\<close> drops namespace qualifiers, so the property types
  \<open>int\<close> and \<open>N::int\<close> are hashed as the same bytes and the two classes, which differ in
  the type of the property only, have the same signature whatever the hash function.
\<close>

theorem classSignature_property_type_counterexample:
  "propType (hd (properties (counterClass ''N::int''))) \<noteq> propType (hd (properties (counterClass ''int'')))
   \<and> counterClass ''N::int''
       = (counterClass ''int'')\<lparr>properties :=
            [(hd (properties (counterClass ''int'')))\<lparr>propType := ''N::int''\<rparr>]\<rparr>
   \<and> (\<forall>P. classSignature P [] (counterClass ''N::int'') = classSignature P [] (counterClass ''int''))"
proof (intro conjI allI)
  show "propType (hd (properties (counterClass ''N::int''))) \<noteq> propType (hd (properties (counterClass ''int'')))"
    by (simp add: counterClass_def)
  show "counterClass ''N::int''
       = (counterClass ''int'')\<lparr>properties :=
            [(hd (properties (counterClass ''int'')))\<lparr>propType := ''N::int''\<rparr>]\<rparr>"
    by (simp add: counterClass_def)
  fix P
  have "classSignatureData P [] (counterClass ''N::int'') = classSignatureData P [] (counterClass ''int'')"
    by (simp add: classSignatureData_eq counterClass_localTypes typeData_int typeData_N_int)
       (simp add: counterClass_def typeData_int typeData_N_int)
  then show "classSignature P [] (counterClass ''N::int'') = classSignature P [] (counterClass ''int'')"
    by (simp only: classSignature_def)
qed

section \<open>Properties of the generated capability map\<close>

subsection \<open>What the constructor stores\<close>

lemma changeLoop:
  "n \<le> length props \<Longrightarrow>
   foldl (\<lambda>(onChangeProperties, propertyChangeIndex) i.
            if modifier (props ! i) \<noteq> Constant
            then (onChangeProperties @ [props ! i], propertyChangeIndex @ [int i + 1])
            else (onChangeProperties, propertyChangeIndex))
      ([], []) [0 ..< n]
   = (map (\<lambda>i. props ! i) (filter (\<lambda>i. modifier (props ! i) \<noteq> Constant) [0 ..< n]),
      map (\<lambda>i. int i + 1) (filter (\<lambda>i. modifier (props ! i) \<noteq> Constant) [0 ..< n]))"
  by (induction n) simp_all

lemma filter_by_index:
  "map (\<lambda>i. xs ! i) (filter (\<lambda>i. P (xs ! i)) [0 ..< length xs]) = filter P xs"
proof -
  have "filter P xs = filter P (map (\<lambda>i. xs ! i) [0 ..< length xs])"
    by (simp add: map_nth)
  also have "\<dots> = map (\<lambda>i. xs ! i) (filter (\<lambda>i. P (xs ! i)) [0 ..< length xs])"
    by (simp add: filter_map comp_def)
  finally show ?thesis by simp
qed

lemma changeIndices_props:
  "map (\<lambda>i. properties ac ! i) (changeIndices ac)
     = filter (\<lambda>p. modifier p \<noteq> Constant) (properties ac)"
  unfolding changeIndices_def by (rule filter_by_index)

lemma changeIndices_length:
  "length (changeIndices ac) = length (filter (\<lambda>p. modifier p \<noteq> Constant) (properties ac))"
  using changeIndices_props [of ac, THEN arg_cong [of _ _ length]] by simp

lemma gen_m_enums:
  "m_enums (generateSourceAPI ot ps ac)
     = int (length (enums ac))
         # map (\<lambda>i. indexOfEnumerator ot (enumName (enums ac ! i))) [0 ..< length (enums ac)]"
  by (simp add: generateSourceAPI_def Let_def split: prod.splits)

lemma gen_m_properties:
  "m_properties (generateSourceAPI ot ps ac)
     = int (length (properties ac))
         # map (\<lambda>i. indexOfProperty ot (propName (properties ac ! i))) [0 ..< length (properties ac)]"
  by (simp add: generateSourceAPI_def Let_def split: prod.splits)

lemma gen_cases:
  "propertyIndexFromSignalCases (generateSourceAPI ot ps ac)
     = map (\<lambda>k. (int k, int (changeIndices ac ! k) + 1)) [0 ..< length (changeIndices ac)]"
  by (simp add: generateSourceAPI_def Let_def changeLoop changeIndices_def)

lemma gen_m_signals:
  "\<exists>entries. m_signals (generateSourceAPI ot ps ac)
       = int (length (signalsList ac)
              + length (filter (\<lambda>p. modifier p \<noteq> Constant) (properties ac))) # entries
     \<and> length entries = length (signalsList ac)
              + length (filter (\<lambda>p. modifier p \<noteq> Constant) (properties ac))
     \<and> (\<forall>k < length (filter (\<lambda>p. modifier p \<noteq> Constant) (properties ac)).
          entries ! k = signalMethodIndex ot
            (propName (filter (\<lambda>p. modifier p \<noteq> Constant) (properties ac) ! k) @ ''Changed''))"
  by (simp add: generateSourceAPI_def Let_def changeLoop changeIndices_def [symmetric]
      changeIndices_props nth_append)

lemma transformEnumParams_length [simp]:
  "length (transformEnumParams classContext methodList typeName) = length methodList"
  by (simp add: transformEnumParams_def)

lemma gen_signal_tables:
  "\<exists>entries argCount argTypes n.
      n = length (signalsList ac) + length (filter (\<lambda>p. modifier p \<noteq> Constant) (properties ac))
    \<and> m_signals (generateSourceAPI ot ps ac) = int n # entries
    \<and> m_signalArgCount (generateSourceAPI ot ps ac) = argCount
    \<and> m_signalArgTypes (generateSourceAPI ot ps ac) = argTypes
    \<and> length entries = n \<and> length argCount = n \<and> length argTypes = n
    \<and> (\<forall>i < n. argCount ! i = int (length (argTypes ! i)))"
  by (simp add: generateSourceAPI_def Let_def changeLoop changeIndices_def [symmetric]
      changeIndices_length nth_append)

lemma gen_method_tables:
  "\<exists>entries argCount argTypes n.
      n = length (slotsList ac) + length (filter (\<lambda>p. modifier p = ReadPush) (properties ac))
    \<and> m_methods (generateSourceAPI ot ps ac) = int n # entries
    \<and> m_methodArgCount (generateSourceAPI ot ps ac) = argCount
    \<and> m_methodArgTypes (generateSourceAPI ot ps ac) = argTypes
    \<and> length entries = n \<and> length argCount = n \<and> length argTypes = n
    \<and> (\<forall>i < n. argCount ! i = int (length (argTypes ! i)))"
  by (simp add: generateSourceAPI_def Let_def nth_append split: prod.splits)

lemma gen_enum_table:
  "\<exists>entries. m_enums (generateSourceAPI ot ps ac) = int (length (enums ac)) # entries
     \<and> length entries = length (enums ac)"
  by (simp add: gen_m_enums)

lemma gen_property_table:
  "\<exists>entries. m_properties (generateSourceAPI ot ps ac) = int (length (properties ac)) # entries
     \<and> length entries = length (properties ac)"
  by (simp add: gen_m_properties)

subsection \<open>The guards of the member functions\<close>

lemma countedRead_guard:
  assumes "table = int n # entries" and "length entries = n"
  shows "(index < 0 \<or> int n \<le> index \<longrightarrow> countedRead table index = Some (- 1))
     \<and> (0 \<le> index \<and> index < int n \<longrightarrow> countedRead table index = Some (entries ! nat index))"
  using assms by (auto simp: countedRead_def arrayRead_def nat_add_distrib)

lemma parameterCount_guard:
  assumes "table = int n # entries" and "length argCount = n"
  shows "(index < 0 \<or> int n \<le> index \<longrightarrow> parameterCount table argCount index = Some (- 1))
     \<and> (0 \<le> index \<and> index < int n \<longrightarrow>
          parameterCount table argCount index = Some (argCount ! nat index))"
  using assms by (auto simp: parameterCount_def arrayRead_def)

lemma parameterType_guard:
  assumes "table = int n # entries" and "length argCount = n" and "length argTypes = n"
    and "\<forall>i < n. argCount ! i = int (length (argTypes ! i))"
  shows "(index < 0 \<or> int n \<le> index \<longrightarrow>
            parameterType table argCount argTypes index paramIndex = Some (- 1))
     \<and> (0 \<le> index \<and> index < int n \<longrightarrow>
           (paramIndex < 0 \<or> argCount ! nat index \<le> paramIndex \<longrightarrow>
              parameterType table argCount argTypes index paramIndex = Some (- 1))
           \<and> (0 \<le> paramIndex \<and> paramIndex < argCount ! nat index \<longrightarrow>
              parameterType table argCount argTypes index paramIndex
                = Some (argTypes ! nat index ! nat paramIndex)))"
proof -
  have "argCount ! nat index = int (length (argTypes ! nat index))"
    if "0 \<le> index" "index < int n"
    using that assms(4) by auto
  then show ?thesis
    using assms(1-3) by (auto simp: parameterType_def arrayRead_def)
qed

lemma countedRead_total:
  assumes "table = int n # entries" and "length entries = n"
  shows "countedRead table index \<noteq> None
     \<and> (index < 0 \<or> int n \<le> index \<longrightarrow> countedRead table index = Some (- 1))
     \<and> arrayRead table 0 = Some (int n)"
  using countedRead_guard [OF assms, of index] assms(1)
  by (cases "0 \<le> index \<and> index < int n") (auto simp: arrayRead_def)

lemma parameterCount_total:
  assumes "table = int n # entries" and "length argCount = n"
  shows "parameterCount table argCount index \<noteq> None
     \<and> (index < 0 \<or> int n \<le> index \<longrightarrow> parameterCount table argCount index = Some (- 1))"
  using parameterCount_guard [OF assms, of index]
  by (cases "0 \<le> index \<and> index < int n") auto

lemma parameterType_total:
  assumes "table = int n # entries" and "length argCount = n" and "length argTypes = n"
    and "\<forall>i < n. argCount ! i = int (length (argTypes ! i))"
  shows "parameterType table argCount argTypes index paramIndex \<noteq> None
     \<and> (index < 0 \<or> int n \<le> index \<or> paramIndex < 0
          \<or> (\<exists>c. parameterCount table argCount index = Some c \<and> c \<le> paramIndex)
          \<longrightarrow> parameterType table argCount argTypes index paramIndex = Some (- 1))"
proof (cases "0 \<le> index \<and> index < int n")
  case False
  then show ?thesis
    using parameterType_guard [OF assms, of index paramIndex] by auto
next
  case True
  then have c: "parameterCount table argCount index = Some (argCount ! nat index)"
    using parameterCount_guard [OF assms(1,2), of index] by simp
  show ?thesis
    using parameterType_guard [OF assms, of index paramIndex] True c
    by (cases "0 \<le> paramIndex \<and> paramIndex < argCount ! nat index") auto
qed

text \<open>
  Claim C8. In the capability map generated for any class, the counts are those of the
  class, and for every integer argument each of the eight functions that take an index
  reads inside its arrays only (it never gives \<open>None\<close>) and returns \<open>-1\<close> when the
  index is negative or not below the count; the two parameter-type functions return
  \<open>-1\<close> also when the parameter index is negative or not below the parameter count of
  that signal or method.
\<close>

theorem SourceApiMap_accessors_guarded:
  assumes "api = generateSourceAPI objectType paramsAsString astClass"
    and "ne = int (length (enums astClass))"
    and "np = int (length (properties astClass))"
    and "ns = int (length (signalsList astClass)
                  + length (filter (\<lambda>p. modifier p \<noteq> Constant) (properties astClass)))"
    and "nm = int (length (slotsList astClass)
                  + length (filter (\<lambda>p. modifier p = ReadPush) (properties astClass)))"
  shows "enumCount api = Some ne \<and> propertyCount api = Some np
     \<and> signalCount api = Some ns \<and> methodCount api = Some nm
     \<and> sourceEnumIndex api index \<noteq> None
     \<and> sourcePropertyIndex api index \<noteq> None
     \<and> sourceSignalIndex api index \<noteq> None
     \<and> sourceMethodIndex api index \<noteq> None
     \<and> signalParameterCount api index \<noteq> None
     \<and> methodParameterCount api index \<noteq> None
     \<and> signalParameterType api index paramIndex \<noteq> None
     \<and> methodParameterType api index paramIndex \<noteq> None
     \<and> (index < 0 \<or> ne \<le> index \<longrightarrow> sourceEnumIndex api index = Some (- 1))
     \<and> (index < 0 \<or> np \<le> index \<longrightarrow> sourcePropertyIndex api index = Some (- 1))
     \<and> (index < 0 \<or> ns \<le> index \<longrightarrow> sourceSignalIndex api index = Some (- 1))
     \<and> (index < 0 \<or> nm \<le> index \<longrightarrow> sourceMethodIndex api index = Some (- 1))
     \<and> (index < 0 \<or> ns \<le> index \<longrightarrow> signalParameterCount api index = Some (- 1))
     \<and> (index < 0 \<or> nm \<le> index \<longrightarrow> methodParameterCount api index = Some (- 1))
     \<and> (index < 0 \<or> ns \<le> index \<or> paramIndex < 0
          \<or> (\<exists>c. signalParameterCount api index = Some c \<and> c \<le> paramIndex)
          \<longrightarrow> signalParameterType api index paramIndex = Some (- 1))
     \<and> (index < 0 \<or> nm \<le> index \<or> paramIndex < 0
          \<or> (\<exists>c. methodParameterCount api index = Some c \<and> c \<le> paramIndex)
          \<longrightarrow> methodParameterType api index paramIndex = Some (- 1))"
proof -
  obtain ee where e: "m_enums api = int (length (enums astClass)) # ee"
      "length ee = length (enums astClass)"
    using gen_enum_table [of objectType paramsAsString astClass] assms by blast
  obtain pe where p: "m_properties api = int (length (properties astClass)) # pe"
      "length pe = length (properties astClass)"
    using gen_property_table [of objectType paramsAsString astClass] assms by blast
  obtain se sc st ns' where
      ns': "ns' = length (signalsList astClass)
                  + length (filter (\<lambda>p. modifier p \<noteq> Constant) (properties astClass))"
    and s: "m_signals api = int ns' # se" "m_signalArgCount api = sc"
      "m_signalArgTypes api = st" "length se = ns'" "length sc = ns'" "length st = ns'"
      "\<forall>i < ns'. sc ! i = int (length (st ! i))"
    using gen_signal_tables [of astClass objectType paramsAsString] assms by blast
  obtain me mc mt nm' where
      nm': "nm' = length (slotsList astClass)
                  + length (filter (\<lambda>p. modifier p = ReadPush) (properties astClass))"
    and m: "m_methods api = int nm' # me" "m_methodArgCount api = mc"
      "m_methodArgTypes api = mt" "length me = nm'" "length mc = nm'" "length mt = nm'"
      "\<forall>i < nm'. mc ! i = int (length (mt ! i))"
    using gen_method_tables [of astClass objectType paramsAsString] assms by blast
  note E = countedRead_total [OF e]
  note P = countedRead_total [OF p]
  note S = countedRead_total [OF s(1,4)]
  note M = countedRead_total [OF m(1,4)]
  note SC = parameterCount_total [OF s(1,5)]
  note MC = parameterCount_total [OF m(1,5)]
  note ST = parameterType_total [OF s(1,5,6,7)]
  note MT = parameterType_total [OF m(1,5,6,7)]
  have counts: "enumCount api = Some (int (length (enums astClass)))"
      "propertyCount api = Some (int (length (properties astClass)))"
      "signalCount api = Some (int ns')" "methodCount api = Some (int nm')"
    using E [of 0] P [of 0] S [of 0] M [of 0]
    by (simp_all add: enumCount_def propertyCount_def signalCount_def methodCount_def)
  have idx: "sourceEnumIndex api index \<noteq> None
         \<and> sourcePropertyIndex api index \<noteq> None
         \<and> sourceSignalIndex api index \<noteq> None
         \<and> sourceMethodIndex api index \<noteq> None
         \<and> (index < 0 \<or> int (length (enums astClass)) \<le> index \<longrightarrow> sourceEnumIndex api index = Some (- 1))
         \<and> (index < 0 \<or> int (length (properties astClass)) \<le> index \<longrightarrow> sourcePropertyIndex api index = Some (- 1))
         \<and> (index < 0 \<or> int ns' \<le> index \<longrightarrow> sourceSignalIndex api index = Some (- 1))
         \<and> (index < 0 \<or> int nm' \<le> index \<longrightarrow> sourceMethodIndex api index = Some (- 1))" for index
    using E [of index] P [of index] S [of index] M [of index]
    by (simp add: sourceEnumIndex_def sourcePropertyIndex_def sourceSignalIndex_def
        sourceMethodIndex_def)
  have cnt: "signalParameterCount api index \<noteq> None
         \<and> methodParameterCount api index \<noteq> None
         \<and> (index < 0 \<or> int ns' \<le> index \<longrightarrow> signalParameterCount api index = Some (- 1))
         \<and> (index < 0 \<or> int nm' \<le> index \<longrightarrow> methodParameterCount api index = Some (- 1))" for index
    using SC [of index] MC [of index]
    by (simp add: signalParameterCount_def methodParameterCount_def s(2) m(2))
  have sty: "signalParameterType api index paramIndex \<noteq> None
             \<and> (index < 0 \<or> int ns' \<le> index \<or> paramIndex < 0
                  \<or> (\<exists>c. signalParameterCount api index = Some c \<and> c \<le> paramIndex)
                  \<longrightarrow> signalParameterType api index paramIndex = Some (- 1))" for index paramIndex
    using ST [of index paramIndex]
    by (cases "signalTables api")
       (simp_all add: signalParameterType_def signalParameterCount_def s(2,3))
  have mty: "methodParameterType api index paramIndex \<noteq> None
             \<and> (index < 0 \<or> int nm' \<le> index \<or> paramIndex < 0
                  \<or> (\<exists>c. methodParameterCount api index = Some c \<and> c \<le> paramIndex)
                  \<longrightarrow> methodParameterType api index paramIndex = Some (- 1))" for index paramIndex
    using MT [of index paramIndex]
    by (cases "methodTables api")
       (simp_all add: methodParameterType_def methodParameterCount_def m(2,3))
  have eq: "ne = int (length (enums astClass))" "np = int (length (properties astClass))"
      "ns = int ns'" "nm = int nm'"
    using assms(2-5) ns' nm' by simp_all
  show ?thesis
    unfolding eq
    using counts idx [of index] cnt [of index] sty [of index paramIndex] mty [of index paramIndex]
    by simp
qed

lemma meterApi_signalParameterCount: "signalParameterCount meterApi 0 = Some 1"
  by code_simp

lemma meterApi_methodParameterCount: "methodParameterCount meterApi 1 = Some 0"
  by code_simp

theorem SourceApiMap_accessors_guarded_witness:
  "sourceEnumIndex meterApi 0 = Some (- 1)
   \<and> sourcePropertyIndex meterApi 2 = Some (- 1)
   \<and> sourceSignalIndex meterApi (- 3) = Some (- 1)
   \<and> sourceMethodIndex meterApi 2 = Some (- 1)
   \<and> signalParameterCount meterApi 2 = Some (- 1)
   \<and> methodParameterCount meterApi (- 1) = Some (- 1)
   \<and> signalParameterType meterApi 0 1 = Some (- 1)
   \<and> methodParameterType meterApi 1 0 = Some (- 1)"
proof -
  note g = SourceApiMap_accessors_guarded [OF meterApi_def refl refl refl refl]
  have "sourceEnumIndex meterApi 0 = Some (- 1)"
    using g [of 0 0] by (simp add: meterClass_def)
  moreover have "sourcePropertyIndex meterApi 2 = Some (- 1)"
    using g [of 2 0] by (simp add: meterClass_def)
  moreover have "sourceSignalIndex meterApi (- 3) = Some (- 1)"
    using g [of "- 3" 0] by simp
  moreover have "sourceMethodIndex meterApi 2 = Some (- 1)"
    using g [of 2 0] by (simp add: meterClass_def)
  moreover have "signalParameterCount meterApi 2 = Some (- 1)"
    using g [of 2 0] by (simp add: meterClass_def)
  moreover have "methodParameterCount meterApi (- 1) = Some (- 1)"
    using g [of "- 1" 0] by simp
  moreover have "signalParameterType meterApi 0 1 = Some (- 1)"
    using g [of 0 1] meterApi_signalParameterCount by simp
  moreover have "methodParameterType meterApi 1 0 = Some (- 1)"
    using g [of 1 0] meterApi_methodParameterCount by simp
  ultimately show ?thesis by simp
qed

subsection \<open>propertyIndexFromSignal\<close>

lemma map_of_cases:
  "map_of (map (\<lambda>k. (int k, f k)) [0 ..< n]) i
     = (if 0 \<le> i \<and> i < int n then Some (f (nat i)) else None)"
proof (induction n)
  case 0
  then show ?case by simp
next
  case (Suc n)
  show ?case
  proof (cases "i = int n")
    case True
    have "map_of (map (\<lambda>k. (int k, f k)) [0 ..< n]) i = None"
      using Suc.IH True by simp
    then show ?thesis using True by (simp add: map_add_def)
  next
    case False
    then show ?thesis by (auto simp: Suc.IH map_add_def split: option.splits)
  qed
qed

lemma changeIndices_bound:
  "k < length (changeIndices ac) \<Longrightarrow> changeIndices ac ! k < length (properties ac)"
  using nth_mem [of k "changeIndices ac"] by (simp add: changeIndices_def)

lemma changeIndices_nth:
  assumes "k < length (changeIndices ac)"
  shows "properties ac ! (changeIndices ac ! k)
     = filter (\<lambda>p. modifier p \<noteq> Constant) (properties ac) ! k"
proof -
  have "map (\<lambda>i. properties ac ! i) (changeIndices ac) ! k = properties ac ! (changeIndices ac ! k)"
    using assms by simp
  then show ?thesis by (simp add: changeIndices_props)
qed

lemma propertyIndexFromSignal_change:
  assumes "0 \<le> i" and "i < int (length (filter (\<lambda>p. modifier p \<noteq> Constant) (properties ac)))"
  shows "propertyIndexFromSignal (generateSourceAPI ot ps ac) i
     = Some (indexOfProperty ot
         (propName (filter (\<lambda>p. modifier p \<noteq> Constant) (properties ac) ! nat i)))"
proof -
  have k: "nat i < length (changeIndices ac)"
    using assms by (simp add: changeIndices_length)
  have c: "map_of (propertyIndexFromSignalCases (generateSourceAPI ot ps ac)) i
      = Some (int (changeIndices ac ! nat i) + 1)"
    using assms k by (simp add: gen_cases map_of_cases)
  have b: "changeIndices ac ! nat i < length (properties ac)"
    using k by (rule changeIndices_bound)
  have "arrayRead (m_properties (generateSourceAPI ot ps ac)) (int (changeIndices ac ! nat i) + 1)
      = Some (indexOfProperty ot (propName (properties ac ! (changeIndices ac ! nat i))))"
    using b by (simp add: gen_m_properties arrayRead_def nat_add_distrib)
  then show ?thesis
    using c changeIndices_nth [OF k] by (simp add: propertyIndexFromSignal_def)
qed

lemma propertyIndexFromSignal_other:
  assumes "i < 0 \<or> int (length (filter (\<lambda>p. modifier p \<noteq> Constant) (properties ac))) \<le> i"
  shows "propertyIndexFromSignal (generateSourceAPI ot ps ac) i = Some (- 1)"
proof -
  have "map_of (propertyIndexFromSignalCases (generateSourceAPI ot ps ac)) i = None"
    using assms by (auto simp: gen_cases map_of_cases changeIndices_length)
  then show ?thesis by (simp add: propertyIndexFromSignal_def)
qed

lemma sourceSignalIndex_change:
  assumes "0 \<le> i" and "i < int (length (filter (\<lambda>p. modifier p \<noteq> Constant) (properties ac)))"
  shows "sourceSignalIndex (generateSourceAPI ot ps ac) i
     = Some (signalMethodIndex ot
         (propName (filter (\<lambda>p. modifier p \<noteq> Constant) (properties ac) ! nat i) @ ''Changed''))"
proof -
  obtain entries where e: "m_signals (generateSourceAPI ot ps ac)
       = int (length (signalsList ac)
              + length (filter (\<lambda>p. modifier p \<noteq> Constant) (properties ac))) # entries"
     "length entries = length (signalsList ac)
              + length (filter (\<lambda>p. modifier p \<noteq> Constant) (properties ac))"
     "\<forall>k < length (filter (\<lambda>p. modifier p \<noteq> Constant) (properties ac)).
          entries ! k = signalMethodIndex ot
            (propName (filter (\<lambda>p. modifier p \<noteq> Constant) (properties ac) ! k) @ ''Changed'')"
    using gen_m_signals [of ot ps ac] by blast
  have "sourceSignalIndex (generateSourceAPI ot ps ac) i = Some (entries ! nat i)"
    unfolding sourceSignalIndex_def
    using countedRead_guard [OF e(1) e(2), of i] assms by simp
  moreover have "nat i < length (filter (\<lambda>p. modifier p \<noteq> Constant) (properties ac))"
    using assms by simp
  ultimately show ?thesis using e(3) by simp
qed

text \<open>
  Claim C4. Let the change signals be those of the properties that are not constant, in
  the order of declaration. For an index \<open>i\<close> from \<open>0\<close> below their number, signal \<open>i\<close> of
  the generated map is the \<open>Changed\<close> signal of the \<open>i\<close>-th such property and
  \<open>propertyIndexFromSignal i\<close> is the source property index of that property. For every
  other index, the class's declared signals and the indices out of range, the result is
  \<open>-1\<close>.
\<close>

theorem propertyIndexFromSignal_generated:
  assumes "api = generateSourceAPI objectType paramsAsString astClass"
    and "onChangeProperties = filter (\<lambda>p. modifier p \<noteq> Constant) (properties astClass)"
  shows "(0 \<le> index \<and> index < int (length onChangeProperties) \<longrightarrow>
            propertyIndexFromSignal api index
              = Some (indexOfProperty objectType (propName (onChangeProperties ! nat index)))
            \<and> sourceSignalIndex api index
              = Some (signalMethodIndex objectType
                        (propName (onChangeProperties ! nat index) @ ''Changed'')))
     \<and> (index < 0 \<or> int (length onChangeProperties) \<le> index \<longrightarrow>
            propertyIndexFromSignal api index = Some (- 1))"
  unfolding assms
  using propertyIndexFromSignal_change [of index astClass objectType paramsAsString]
    sourceSignalIndex_change [of index astClass objectType paramsAsString]
    propertyIndexFromSignal_other [of index astClass objectType paramsAsString]
  by blast

theorem propertyIndexFromSignal_generated_witness:
  "propertyIndexFromSignal meterApi 0 = Some 2
   \<and> sourceSignalIndex meterApi 0 = Some 5
   \<and> propertyIndexFromSignal meterApi 1 = Some (- 1)
   \<and> propertyIndexFromSignal meterApi (- 1) = Some (- 1)"
  using propertyIndexFromSignal_generated [OF meterApi_def refl, of 0]
    propertyIndexFromSignal_generated [OF meterApi_def refl, of 1]
    propertyIndexFromSignal_generated [OF meterApi_def refl, of "- 1"]
  by (simp add: meterClass_def meterObject_def)

end
